theory Spec2Isabelle
  imports Complex_Main "HOL-Library.Sublist"
begin

section \<open>LifeLine AI: the live triage session controller\<close>

text \<open>
  The component \<open>LiveTriage\<close> keeps its state in React state cells (\<open>useState\<close>) and in
  mutable refs (\<open>useRef\<close>). Both are fields of one record here, together with the
  platform resources the component acquires (audio contexts, media streams, timers,
  remote sessions) and with what it emits (scheduled playback, outbound messages,
  console lines). Every callback of the component is a function from state to state;
  a callback that suspends at an \<open>await\<close> is split at the suspension point, so that
  another callback can be run between the two halves.

  Times on the audio clock and sample values are JavaScript numbers, IEEE 754 doubles;
  they are real numbers here, and the one arithmetic operation the controller performs
  on them, the sum that advances the playback cursor, is an argument of the scheduler
  (see \<open>scheduleChunk\<close>). Strings are ASCII strings.
\<close>

subsection \<open>Values received from the remote service\<close>

datatype jsval =
    JUndefined
  | JNull
  | JBool bool
  | JNum real
  | JStr string
  | JObj "(string \<times> jsval) list"

text \<open>A \<open>FunctionCall\<close> of the SDK: all three members are optional.\<close>

record functionCall =
  fc_id :: "string option"
  fc_name :: "string option"
  fc_args :: "(string \<rightharpoonup> jsval) option"

record functionResponse =
  fr_id :: "string option"
  fr_name :: "string option"
  fr_result :: string

text \<open>
  The parts of a \<open>LiveServerMessage\<close> the handler reads. \<open>inlineData\<close> is the value of
  \<open>message.serverContent?.modelTurn?.parts?.[0]?.inlineData?.data\<close>; \<open>toolCall\<close> is
  \<open>message.toolCall\<close>, holding \<open>functionCalls\<close> (optional in the SDK's type).
\<close>

record serverMessage =
  inlineData :: "string option"
  toolCall :: "functionCall list option option"
  inputTranscription :: "string option"
  outputTranscription :: "string option"

record triageStatus =
  condition :: jsval
  riskLevel :: jsval
  immediateAction :: jsval
  hospitalUrgency :: jsval
  department :: jsval
  contraindications :: jsval
  reasoning :: jsval
  recommendedHospital :: jsval
  lastUpdated :: nat
  source :: string

datatype outbound =
    RealtimeInput string string
  | ToolResponse "functionResponse list"

datatype quality = Low | Medium | High

record video =
  srcObject :: "nat option"
  videoWidth :: nat
  videoHeight :: nat

record canvas =
  hasContext2d :: bool
  width :: nat
  height :: nat

record encodeJob =
  jobWidth :: nat
  jobHeight :: nat
  jpegQuality :: real

subsection \<open>The state of the component and of the platform\<close>

record session_state =
  \<comment> \<open>React state\<close>
  isConnected :: bool
  isStreaming :: bool
  error :: "string option"
  triageStatus :: "triageStatus option"
  transcription :: string
  audioAnalyser :: "nat option"
  userLocation :: string
  isCPRMode :: bool
  \<comment> \<open>refs\<close>
  videoRef :: "video option"
  canvasRef :: "canvas option"
  audioContextRef :: "nat option"
  inputSourceRef :: "nat option"
  processorRef :: "nat option"
  nextStartTimeRef :: real
  sessionRef :: "nat option"
  frameIntervalRef :: "nat option"
  activeRef :: bool
  \<comment> \<open>platform resources currently held\<close>
  openContexts :: "nat set"
  connectedNodes :: "nat set"
  liveStreams :: "nat set"
  timers :: "nat set"
  openSessions :: "nat set"
  pendingEncodes :: "encodeJob list"
  pendingBase64 :: nat
  \<comment> \<open>what the component has emitted\<close>
  playback :: "(real \<times> real) list"
  sent :: "(nat \<times> outbound) list"
  console :: "string list"

text \<open>The values of \<open>useState\<close> and \<open>useRef\<close> at mount, with nothing acquired.\<close>

definition initial :: "video option \<Rightarrow> canvas option \<Rightarrow> session_state" where
  "initial v c =
     \<lparr> isConnected = False, isStreaming = False, error = None, triageStatus = None,
       transcription = [], audioAnalyser = None, userLocation = ''Unknown'',
       isCPRMode = False,
       videoRef = v, canvasRef = c, audioContextRef = None, inputSourceRef = None,
       processorRef = None, nextStartTimeRef = 0, sessionRef = None,
       frameIntervalRef = None, activeRef = False,
       openContexts = {}, connectedNodes = {}, liveStreams = {}, timers = {},
       openSessions = {}, pendingEncodes = [], pendingBase64 = 0,
       playback = [], sent = [], console = [] \<rparr>"

subsection \<open>Playback scheduling\<close>

text \<open>
  Lines 395 to 398 of \<open>handleServerMessage\<close>: the segment starts at the later of the
  cursor and the audio clock, and the cursor moves to its end. \<open>playback\<close> records
  each \<open>source.start(startTime)\<close> with the duration of the buffer.

  The sum \<open>startTime + audioBuffer.duration\<close> is a sum of JavaScript numbers, IEEE 754
  doubles, and is rounded. The addition is the argument \<open>add\<close>: on doubles it stands for
  the rounded sum. What is proved of the scheduler for every \<open>add\<close> uses one property of
  it, stated where it is used: adding a duration that is not negative never gives less
  than the first operand, as the rounded sum of two doubles never does. Where a run is
  computed on sample values, \<open>add\<close> is the exact sum and the values are binary
  fractions, on which the rounded sum is the exact one.
\<close>

definition scheduleChunk ::
  "(real \<Rightarrow> real \<Rightarrow> real) \<Rightarrow> real \<Rightarrow> real \<Rightarrow> session_state \<Rightarrow> session_state" where
  "scheduleChunk add currentTime duration s =
     (let startTime = max (nextStartTimeRef s) currentTime
      in s\<lparr> playback := playback s @ [(startTime, duration)],
            nextStartTimeRef := add startTime duration \<rparr>)"

subsection \<open>Strings\<close>

text \<open>
  \<open>String.prototype.toLowerCase\<close> on ASCII text: the 26 capital letters are mapped to
  the small ones, every other character is kept.
\<close>

definition toLowerChar :: "char \<Rightarrow> char" where
  "toLowerChar c =
     (case map_of (zip ''ABCDEFGHIJKLMNOPQRSTUVWXYZ'' ''abcdefghijklmnopqrstuvwxyz'') c of
        None \<Rightarrow> c
      | Some l \<Rightarrow> l)"

definition toLowerCase :: "string \<Rightarrow> string" where
  "toLowerCase text = map toLowerChar text"

text \<open>\<open>String.prototype.includes\<close>: the needle occurs at some position of the text.\<close>

fun startsWith :: "string \<Rightarrow> string \<Rightarrow> bool" where
  "startsWith text [] = True"
| "startsWith [] (n # ns) = False"
| "startsWith (c # cs) (n # ns) = (c = n \<and> startsWith cs ns)"

fun includesStr :: "string \<Rightarrow> string \<Rightarrow> bool" where
  "includesStr [] needle = (needle = [])"
| "includesStr (c # cs) needle = (startsWith (c # cs) needle \<or> includesStr cs needle)"

subsection \<open>Tool calls\<close>

datatype js_error = TypeError

text \<open>\<open>fc.args.k\<close>: a property that is absent reads as \<open>undefined\<close>.\<close>

definition arg :: "(string \<rightharpoonup> jsval) \<Rightarrow> string \<Rightarrow> jsval" where
  "arg a k = (case a k of None \<Rightarrow> JUndefined | Some v \<Rightarrow> v)"

text \<open>
  The keywords of line 424, and its condition on the lower-cased text of
  \<open>immediateAction\<close>.
\<close>

definition cprKeywords :: "string list" where
  "cprKeywords = [''cpr'', ''chest compression'', ''resuscitation'']"

definition isCPRAction :: "string \<Rightarrow> bool" where
  "isCPRAction text =
     (let actionText = toLowerCase text
      in includesStr actionText ''cpr'' \<or> includesStr actionText ''chest compression''
         \<or> includesStr actionText ''resuscitation'')"

text \<open>
  The object \<open>statusData\<close> of lines 407 to 418, and the body of the loop over
  \<open>message.toolCall.functionCalls\<close> (lines 404 to 433). The
  casts \<open>as string\<close> do nothing at run time, so the status holds whatever the arguments
  hold. Reading a property of an absent \<open>args\<close> and calling \<open>toLowerCase\<close> on a value
  that is not a string throw a \<open>TypeError\<close>; the state reached at the throw is kept with
  the error, since the updates made before it are not undone.
\<close>

definition statusData :: "nat \<Rightarrow> (string \<rightharpoonup> jsval) \<Rightarrow> triageStatus" where
  "statusData dateNow a =
     \<lparr> condition = arg a ''condition'',
       riskLevel = arg a ''riskLevel'',
       immediateAction = arg a ''immediateAction'',
       hospitalUrgency = arg a ''hospitalUrgency'',
       department = arg a ''department'',
       contraindications = arg a ''contraindications'',
       reasoning = arg a ''reasoning'',
       recommendedHospital = arg a ''recommendedHospital'',
       lastUpdated = dateNow,
       source = ''LIVE_OBSERVATION'' \<rparr>"

definition dispatchCall ::
  "nat \<Rightarrow> functionCall \<Rightarrow> session_state \<times> functionResponse list
     \<Rightarrow> (js_error \<times> session_state) + (session_state \<times> functionResponse list)" where
  "dispatchCall dateNow fc acc =
     (let s = fst acc; responses = snd acc in
      if fc_name fc = Some ''updateTriageStatus'' then
        (let s1 = s\<lparr> console := console s @ [''Updating Triage Status:''] \<rparr> in
         case fc_args fc of
           None \<Rightarrow> Inl (TypeError, s1)
         | Some a \<Rightarrow>
            (let s2 = s1\<lparr> triageStatus := Some (statusData dateNow a) \<rparr>
             in case arg a ''immediateAction'' of
                  JStr text \<Rightarrow>
                    (let s3 = (if isCPRAction text then s2\<lparr> isCPRMode := True \<rparr> else s2)
                     in Inr (s3, responses @
                               [\<lparr> fr_id = fc_id fc, fr_name = fc_name fc,
                                  fr_result = ''Status updated.'' \<rparr>]))
                | _ \<Rightarrow> Inl (TypeError, s2)))
      else Inr (s, responses))"

fun functionCallsLoop ::
  "nat \<Rightarrow> functionCall list \<Rightarrow> session_state \<times> functionResponse list
     \<Rightarrow> (js_error \<times> session_state) + (session_state \<times> functionResponse list)" where
  "functionCallsLoop dateNow [] acc = Inr acc"
| "functionCallsLoop dateNow (fc # fcs) acc =
     (case dispatchCall dateNow fc acc of
        Inl e \<Rightarrow> Inl e
      | Inr acc' \<Rightarrow> functionCallsLoop dateNow fcs acc')"

text \<open>
  Lines 401 to 438: the batch, then at most one \<open>sendToolResponse\<close>, recorded in
  \<open>sent\<close> with the handle of the session it is called on. \<open>functionCalls\<close> absent makes
  the \<open>for\<close> loop throw.
\<close>

definition toolCallPhase ::
  "nat \<Rightarrow> serverMessage \<Rightarrow> session_state \<Rightarrow> (js_error \<times> session_state) + session_state" where
  "toolCallPhase dateNow m s =
     (case toolCall m of
        None \<Rightarrow> Inr s
      | Some None \<Rightarrow> Inl (TypeError, s)
      | Some (Some fcs) \<Rightarrow>
         (case functionCallsLoop dateNow fcs (s, []) of
            Inl e \<Rightarrow> Inl e
          | Inr (s', responses) \<Rightarrow>
             (case sessionRef s' of
                Some sess \<Rightarrow>
                  if responses \<noteq> [] \<and> activeRef s'
                  then Inr (s'\<lparr> sent := sent s' @ [(sess, ToolResponse responses)] \<rparr>)
                  else Inr s'
              | None \<Rightarrow> Inr s')))"

text \<open>Lines 440 to 445: an empty text is falsy and leaves the transcript alone.\<close>

definition transcriptionPhase :: "serverMessage \<Rightarrow> session_state \<Rightarrow> session_state" where
  "transcriptionPhase m s =
     (let s1 = (case inputTranscription m of
                  Some t \<Rightarrow> if t \<noteq> [] then s\<lparr> transcription := ''You: '' @ t \<rparr> else s
                | None \<Rightarrow> s)
      in case outputTranscription m of
           Some t \<Rightarrow> if t \<noteq> [] then s1\<lparr> transcription := ''LifeLine: '' @ t \<rparr> else s1
         | None \<Rightarrow> s1)"

text \<open>The \<open>catch\<close> of line 446.\<close>

definition catchMessageError :: "session_state \<Rightarrow> session_state" where
  "catchMessageError s = s\<lparr> console := console s @ [''Error processing server message''] \<rparr>"

subsection \<open>The inbound message handler\<close>

definition audioDataOf :: "serverMessage \<Rightarrow> string option" where
  "audioDataOf m =
     (case inlineData m of None \<Rightarrow> None | Some d \<Rightarrow> if d = [] then None else Some d)"

text \<open>The handler from line 401 on, inside the \<open>try\<close>.\<close>

definition handleServerMessage_tail ::
  "nat \<Rightarrow> serverMessage \<Rightarrow> session_state \<Rightarrow> session_state" where
  "handleServerMessage_tail dateNow m s =
     (case toolCallPhase dateNow m s of
        Inl e \<Rightarrow> catchMessageError (snd e)
      | Inr s' \<Rightarrow> transcriptionPhase m s')"

text \<open>
  The continuation of \<open>await decodeAudioData(base64ToUint8Array(audioData), audioCtx)\<close>.
  The two helpers live in \<open>utils/audio\<close>; their outcome is the argument \<open>decoded\<close>:
  \<open>None\<close> when either throws or the promise is rejected, \<open>Some d\<close> for a buffer whose
  \<open>duration\<close> is \<open>d\<close>. \<open>currentTime\<close> is \<open>audioCtx.currentTime\<close> when the continuation
  runs.
\<close>

definition handleServerMessage_resume ::
  "(real \<Rightarrow> real \<Rightarrow> real) \<Rightarrow> real \<Rightarrow> nat \<Rightarrow> serverMessage \<Rightarrow> real option
     \<Rightarrow> session_state \<Rightarrow> session_state" where
  "handleServerMessage_resume add currentTime dateNow m decoded s =
     (case decoded of
        None \<Rightarrow> catchMessageError s
      | Some duration \<Rightarrow>
          handleServerMessage_tail dateNow m (scheduleChunk add currentTime duration s))"

text \<open>The whole handler when nothing else runs while the decode is pending.\<close>

definition handleServerMessage ::
  "(real \<Rightarrow> real \<Rightarrow> real) \<Rightarrow> (string \<Rightarrow> real option) \<Rightarrow> real \<Rightarrow> nat \<Rightarrow> serverMessage
     \<Rightarrow> session_state \<Rightarrow> session_state" where
  "handleServerMessage add decode currentTime dateNow m s =
     (case audioDataOf m of
        None \<Rightarrow> handleServerMessage_tail dateNow m s
      | Some a \<Rightarrow> handleServerMessage_resume add currentTime dateNow m (decode a) s)"

text \<open>The \<open>onmessage\<close> callback of the connection (line 259).\<close>

definition onmessage ::
  "(real \<Rightarrow> real \<Rightarrow> real) \<Rightarrow> (string \<Rightarrow> real option) \<Rightarrow> real \<Rightarrow> nat \<Rightarrow> serverMessage
     \<Rightarrow> session_state \<Rightarrow> session_state" where
  "onmessage add decode currentTime dateNow m s =
     (if \<not> activeRef s then s else handleServerMessage add decode currentTime dateNow m s)"

text \<open>A sequence of inbound messages, each with the clock readings of its handling.\<close>

fun handleAll ::
  "(real \<Rightarrow> real \<Rightarrow> real) \<Rightarrow> (string \<Rightarrow> real option) \<Rightarrow> (serverMessage \<times> real \<times> nat) list
     \<Rightarrow> session_state \<Rightarrow> session_state" where
  "handleAll add decode [] s = s"
| "handleAll add decode ((m, currentTime, dateNow) # rest) s =
     handleAll add decode rest (handleServerMessage add decode currentTime dateNow m s)"

text \<open>
  Scheduled segments as intervals: no segment starts before the end that the scheduler
  computed for an earlier one, the sum \<open>add start duration\<close>.
\<close>

fun intervalsDisjoint :: "(real \<Rightarrow> real \<Rightarrow> real) \<Rightarrow> (real \<times> real) list \<Rightarrow> bool" where
  "intervalsDisjoint add [] = True"
| "intervalsDisjoint add (p # rest) =
     (list_all (\<lambda>q. add (fst p) (snd p) \<le> fst q) rest \<and> intervalsDisjoint add rest)"

subsection \<open>Teardown\<close>

text \<open>
  \<open>stopSession\<close> (lines 153 to 203). A ref to an object is truthy when it is not
  \<open>null\<close>; the timer handle is a number, truthy when it is not \<open>null\<close> and not \<open>0\<close>.
  Closing a context or a session releases it; the \<open>try\<close> around each \<open>close()\<close> keeps
  a failure of the call inside \<open>stopSession\<close>. The four blocks of the function, in
  the order of its comments, are the four definitions before it.
\<close>

definition stopAudioProcessing :: "session_state \<Rightarrow> session_state" where
  "stopAudioProcessing s =
     (let s1 = (case inputSourceRef s of
                  None \<Rightarrow> s
                | Some n \<Rightarrow> s\<lparr> connectedNodes := connectedNodes s - {n},
                              inputSourceRef := None \<rparr>)
      in case processorRef s1 of
           None \<Rightarrow> s1
         | Some n \<Rightarrow> s1\<lparr> connectedNodes := connectedNodes s1 - {n},
                        processorRef := None \<rparr>)"

definition closeAudioContext :: "session_state \<Rightarrow> session_state" where
  "closeAudioContext s =
     (case audioContextRef s of
        None \<Rightarrow> s
      | Some c \<Rightarrow> if c \<in> openContexts s
                  then s\<lparr> openContexts := openContexts s - {c} \<rparr>
                  else s)\<lparr> audioContextRef := None \<rparr>"

definition stopVideoProcessing :: "session_state \<Rightarrow> session_state" where
  "stopVideoProcessing s =
     (let s1 = (case frameIntervalRef s of
                  None \<Rightarrow> s
                | Some t \<Rightarrow> if t \<noteq> 0
                            then s\<lparr> timers := timers s - {t}, frameIntervalRef := None \<rparr>
                            else s)
      in case videoRef s1 of
           None \<Rightarrow> s1
         | Some v \<Rightarrow>
            (case srcObject v of
               None \<Rightarrow> s1
             | Some stream \<Rightarrow>
                 s1\<lparr> liveStreams := liveStreams s1 - {stream},
                     videoRef := Some (v\<lparr> srcObject := None \<rparr>) \<rparr>))"

definition closeGenAISession :: "session_state \<Rightarrow> session_state" where
  "closeGenAISession s =
     (case sessionRef s of
        None \<Rightarrow> s
      | Some sess \<Rightarrow> s\<lparr> openSessions := openSessions s - {sess}, sessionRef := None \<rparr>)"

definition stopSession :: "session_state \<Rightarrow> session_state" where
  "stopSession s =
     (let s1 = s\<lparr> activeRef := False \<rparr>;
          s2 = stopAudioProcessing s1;
          s3 = closeAudioContext s2;
          s4 = stopVideoProcessing s3;
          s5 = closeGenAISession s4
      in s5\<lparr> isConnected := False, isStreaming := False, audioAnalyser := None,
             triageStatus := None, isCPRMode := False \<rparr>)"

text \<open>Nothing is held: no context, node, stream, timer or remote session.\<close>

definition resourceFree :: "session_state \<Rightarrow> bool" where
  "resourceFree s =
     (openContexts s = {} \<and> connectedNodes s = {} \<and> liveStreams s = {}
      \<and> timers s = {} \<and> openSessions s = {})"

subsection \<open>Session start\<close>

text \<open>
  \<open>startSession\<close> (lines 205 to 327) suspends three times: at \<open>getUserLocation()\<close>, at
  \<open>getUserMedia()\<close> and at \<open>audioCtx.resume()\<close>. Each piece below runs from one
  suspension to the next. The handles of the objects the platform creates (stream,
  context, analyser, nodes) are arguments.
\<close>

definition startSession :: "session_state \<Rightarrow> session_state" where
  "startSession s = (stopSession (s\<lparr> error := None \<rparr>))\<lparr> activeRef := True \<rparr>"

definition startSession_afterLocation :: "string \<Rightarrow> session_state \<Rightarrow> session_state" where
  "startSession_afterLocation location s =
     (if \<not> activeRef s then s else s\<lparr> userLocation := location \<rparr>)"

text \<open>
  \<open>getUserMedia\<close> has resolved with a live stream. When the session is still active the
  stream is attached to the video element, the audio context is created, and the
  function suspends at \<open>audioCtx.resume()\<close>.
\<close>

definition startSession_afterUserMedia :: "nat \<Rightarrow> nat \<Rightarrow> session_state \<Rightarrow> session_state" where
  "startSession_afterUserMedia stream audioCtx s =
     (let s1 = s\<lparr> liveStreams := liveStreams s \<union> {stream} \<rparr> in
      if \<not> activeRef s1 then s1\<lparr> liveStreams := liveStreams s1 - {stream} \<rparr>
      else
        (let s2 = (case videoRef s1 of
                     None \<Rightarrow> s1
                   | Some v \<Rightarrow> s1\<lparr> videoRef := Some (v\<lparr> srcObject := Some stream \<rparr>) \<rparr>)
         in s2\<lparr> openContexts := openContexts s2 \<union> {audioCtx} \<rparr>))"

text \<open>
  The rest of the \<open>try\<close> block, lines 232 to 320, after \<open>audioCtx.resume()\<close>: the
  context is stored, the analyser published, the connection requested (it resolves
  later, see \<open>sessionPromise_then\<close>), and the capture graph is built and stored.
\<close>

definition startSession_afterResume ::
  "nat \<Rightarrow> nat \<Rightarrow> nat \<Rightarrow> nat \<Rightarrow> session_state \<Rightarrow> session_state" where
  "startSession_afterResume audioCtx analyser sourceNode processor s =
     s\<lparr> audioContextRef := Some audioCtx,
        audioAnalyser := Some analyser,
        connectedNodes := connectedNodes s \<union> {sourceNode, processor},
        inputSourceRef := Some sourceNode,
        processorRef := Some processor \<rparr>"

text \<open>The \<open>catch\<close> of \<open>startSession\<close>, lines 322 to 326.\<close>

definition startSession_catch :: "session_state \<Rightarrow> session_state" where
  "startSession_catch s =
     stopSession (s\<lparr> console := console s @ [''error''],
                     error := Some ''Failed to access camera/microphone or connect to AI.'' \<rparr>)"

text \<open>The connection is established: lines 280 to 285.\<close>

definition sessionPromise_then :: "nat \<Rightarrow> session_state \<Rightarrow> session_state" where
  "sessionPromise_then sess s =
     (let s1 = s\<lparr> openSessions := openSessions s \<union> {sess} \<rparr> in
      if activeRef s1 then s1\<lparr> sessionRef := Some sess \<rparr>
      else s1\<lparr> openSessions := openSessions s1 - {sess} \<rparr>)"

definition sessionPromise_catch :: "session_state \<Rightarrow> session_state" where
  "sessionPromise_catch s =
     (let s1 = s\<lparr> console := console s @ [''Connection failed''] \<rparr> in
      if activeRef s1
      then stopSession (s1\<lparr> error := Some ''Failed to connect to AI Service.'' \<rparr>)
      else s1)"

definition onopen :: "session_state \<Rightarrow> session_state" where
  "onopen s =
     (let s1 = s\<lparr> console := console s @ [''Live Session Connected''] \<rparr> in
      if activeRef s1 then s1\<lparr> isConnected := True, isStreaming := True \<rparr> else s1)"

definition onclose :: "session_state \<Rightarrow> session_state" where
  "onclose s =
     (let s1 = s\<lparr> console := console s @ [''Live Session Closed''] \<rparr> in
      if activeRef s1 then stopSession s1 else s1)"

definition onerror :: "session_state \<Rightarrow> session_state" where
  "onerror s =
     (let s1 = s\<lparr> console := console s @ [''Live Session Error''] \<rparr> in
      if activeRef s1
      then (stopSession (s1\<lparr> error := Some ''Service unavailable. Retrying...'' \<rparr>))
             \<lparr> error := Some ''Connection failed. Service may be unavailable.'' \<rparr>
      else s1)"

subsection \<open>Audio capture\<close>

text \<open>
  \<open>onaudioprocess\<close> (lines 297 to 313) and the callback it hands to
  \<open>sessionPromise.then\<close>. The blob \<open>createAudioContentBlob(downsampleTo16k(...))\<close>,
  a MIME type and base64 data, is computed before the callback is queued;
  \<open>onaudioprocess\<close> itself changes no state.
\<close>

definition onaudioprocess_then ::
  "nat \<Rightarrow> string \<Rightarrow> string \<Rightarrow> session_state \<Rightarrow> session_state" where
  "onaudioprocess_then session mimeType data s =
     (if activeRef s
      then s\<lparr> sent := sent s @ [(session, RealtimeInput mimeType data)] \<rparr>
      else s)"

subsection \<open>Video frames\<close>

definition scaleOf :: "quality \<Rightarrow> real" where
  "scaleOf q = (case q of Low \<Rightarrow> 0.25 | Medium \<Rightarrow> 0.5 | High \<Rightarrow> 1.0)"

definition jpegQualityOf :: "quality \<Rightarrow> real" where
  "jpegQualityOf q = (if q = Low then 0.5 else 0.7)"

text \<open>
  \<open>captureAndSendFrame\<close> (lines 341 to 377), the timer callback, up to the call of
  \<open>canvas.toBlob\<close>, which queues the encode. The canvas takes the scaled size, cut to
  an integer.
\<close>

definition captureAndSendFrame :: "quality \<Rightarrow> session_state \<Rightarrow> session_state" where
  "captureAndSendFrame q s =
     (case videoRef s of
        None \<Rightarrow> s
      | Some v \<Rightarrow>
         (case canvasRef s of
            None \<Rightarrow> s
          | Some c \<Rightarrow>
             if sessionRef s = None \<or> \<not> activeRef s then s
             else if \<not> hasContext2d c then s
             else if videoWidth v > 0 \<and> videoHeight v > 0 then
               (let w = nat \<lfloor>real (videoWidth v) * scaleOf q\<rfloor>;
                    h = nat \<lfloor>real (videoHeight v) * scaleOf q\<rfloor>
                in s\<lparr> canvasRef := Some (c\<lparr> width := w, height := h \<rparr>),
                      pendingEncodes := pendingEncodes s @
                        [\<lparr> jobWidth = w, jobHeight = h, jpegQuality = jpegQualityOf q \<rparr>] \<rparr>)
             else s))"

text \<open>
  The callback of \<open>toBlob\<close> (line 361): the oldest pending encode is done, with a blob
  or with \<open>null\<close>. With a blob and an active session it suspends at \<open>blobToBase64\<close>.
\<close>

definition toBlobCallback :: "bool \<Rightarrow> session_state \<Rightarrow> session_state" where
  "toBlobCallback blob s =
     (let s1 = s\<lparr> pendingEncodes := tl (pendingEncodes s) \<rparr> in
      if blob \<and> activeRef s1 then s1\<lparr> pendingBase64 := pendingBase64 s1 + 1 \<rparr> else s1)"

text \<open>
  After \<open>blobToBase64\<close> (lines 364 to 373): \<open>sessionRef.current.sendRealtimeInput\<close>
  inside a \<open>try\<close>; with \<open>sessionRef.current\<close> \<open>null\<close> the call throws and the \<open>catch\<close>
  drops the frame.
\<close>

definition toBlobCallback_resume :: "string \<Rightarrow> session_state \<Rightarrow> session_state" where
  "toBlobCallback_resume base64 s =
     (let s1 = s\<lparr> pendingBase64 := pendingBase64 s - 1 \<rparr> in
      case sessionRef s1 of
        None \<Rightarrow> s1
      | Some sess \<Rightarrow> s1\<lparr> sent := sent s1 @ [(sess, RealtimeInput ''image/jpeg'' base64)] \<rparr>)"

subsection \<open>Resampling\<close>

text \<open>
  Modelled from the spec: \<open>downsampleTo16k\<close> and \<open>AUDIO_INPUT_SAMPLE_RATE\<close> are
  defined in \<open>utils/audio\<close>, of which only the import is at hand. The spec has the
  adapter resample linearly from the native rate to the service's input rate, with
  output length \<open>floor(input length * target_rate / source_rate)\<close>; the name of the
  function fixes the target rate at 16 kHz. Output sample \<open>i\<close> is read at input position
  \<open>i * source_rate / target_rate\<close>, between the two neighbouring input samples.
\<close>

definition AUDIO_INPUT_SAMPLE_RATE :: nat where
  "AUDIO_INPUT_SAMPLE_RATE = 16000"

definition interpolate :: "real list \<Rightarrow> nat \<Rightarrow> nat \<Rightarrow> real" where
  "interpolate buffer num den =
     (let idx = num div den;
          frac = real (num mod den) / real den;
          a = (if idx < length buffer then buffer ! idx else 0);
          b = (if idx + 1 < length buffer then buffer ! (idx + 1) else a)
      in a + (b - a) * frac)"

definition downsampleTo16k :: "real list \<Rightarrow> nat \<Rightarrow> real list" where
  "downsampleTo16k buffer sampleRate =
     map (\<lambda>i. interpolate buffer (i * sampleRate) AUDIO_INPUT_SAMPLE_RATE)
       [0 ..< (length buffer * AUDIO_INPUT_SAMPLE_RATE) div sampleRate]"

subsection \<open>Notions used in the statements\<close>

text \<open>
  The playback timeline is consistent with the cursor: the scheduled segments do not
  overlap and none ends after \<open>nextStartTime\<close>.
\<close>

definition cursorInv :: "(real \<Rightarrow> real \<Rightarrow> real) \<Rightarrow> session_state \<Rightarrow> bool" where
  "cursorInv add s =
     (intervalsDisjoint add (playback s)
      \<and> list_all (\<lambda>q. add (fst q) (snd q) \<le> nextStartTimeRef s) (playback s))"

text \<open>The invocations of a batch that name the registered tool, in order.\<close>

definition matched :: "functionCall list \<Rightarrow> functionCall list" where
  "matched fcs = filter (\<lambda>fc. fc_name fc = Some ''updateTriageStatus'') fcs"

text \<open>The invocation carries arguments with a string \<open>immediateAction\<close>.\<close>

definition hasActionText :: "functionCall \<Rightarrow> bool" where
  "hasActionText fc =
     (case fc_args fc of
        None \<Rightarrow> False
      | Some a \<Rightarrow> (case arg a ''immediateAction'' of JStr text \<Rightarrow> True | _ \<Rightarrow> False))"

text \<open>The triple pushed for an invocation (lines 428 to 432).\<close>

definition responseOf :: "functionCall \<Rightarrow> functionResponse" where
  "responseOf fc = \<lparr> fr_id = fc_id fc, fr_name = fc_name fc, fr_result = ''Status updated.'' \<rparr>"

text \<open>
  The spec's wording of the keyword test, by character codes: the capital letters are
  the codes 65 to 90, the small letter of a capital is 32 further on, and two
  characters are the same letter when they are equal or one is the capital of the
  other. A text contains a keyword ignoring case when some stretch of it matches the
  keyword letter by letter.
\<close>

definition isUpperCaseLetter :: "char \<Rightarrow> bool" where
  "isUpperCaseLetter c = (65 \<le> (of_char c :: nat) \<and> (of_char c :: nat) \<le> 90)"

definition sameLetter :: "char \<Rightarrow> char \<Rightarrow> bool" where
  "sameLetter a b =
     (a = b
      \<or> (isUpperCaseLetter a \<and> (of_char b :: nat) = of_char a + 32)
      \<or> (isUpperCaseLetter b \<and> (of_char a :: nat) = of_char b + 32))"

definition containsIgnoringCase :: "string \<Rightarrow> string \<Rightarrow> bool" where
  "containsIgnoringCase text kw = (\<exists>u. sublist u text \<and> list_all2 sameLetter u kw)"

definition containsKeywordIgnoringCase :: "string \<Rightarrow> bool" where
  "containsKeywordIgnoringCase text = (\<exists>kw \<in> set cprKeywords. containsIgnoringCase text kw)"

text \<open>The invocation carries a string \<open>immediateAction\<close> that contains a keyword.\<close>

definition actionHasKeyword :: "functionCall \<Rightarrow> bool" where
  "actionHasKeyword fc =
     (\<exists>a text. fc_args fc = Some a \<and> arg a ''immediateAction'' = JStr text
        \<and> containsKeywordIgnoringCase text)"

text \<open>
  What \<open>stopSession\<close> acts on: the stream attached to the video element, the video
  element with its stream detached, and the timer a truthy handle stands for.
\<close>

definition clearedVideo :: "video option \<Rightarrow> video option" where
  "clearedVideo v = map_option (\<lambda>x. x\<lparr> srcObject := None \<rparr>) v"

definition streamOf :: "video option \<Rightarrow> nat set" where
  "streamOf v = (case v of None \<Rightarrow> {} | Some x \<Rightarrow> set_option (srcObject x))"

definition truthyTimer :: "nat option \<Rightarrow> nat set" where
  "truthyTimer h = (case h of None \<Rightarrow> {} | Some t \<Rightarrow> if t \<noteq> 0 then {t} else {})"

text \<open>The state a dispatch leaves behind, whether it returned or threw.\<close>

definition stateAfter ::
  "(js_error \<times> session_state) + (session_state \<times> functionResponse list) \<Rightarrow> session_state" where
  "stateAfter r = (case r of Inl e \<Rightarrow> snd e | Inr p \<Rightarrow> fst p)"

text \<open>
  The state with the dashboard fields and the console blanked: two states that agree
  under \<open>exceptDashboard\<close> differ at most in the triage status, the CPR mode and the
  console.
\<close>

definition exceptDashboard :: "session_state \<Rightarrow> session_state" where
  "exceptDashboard s = s\<lparr> triageStatus := None, isCPRMode := False, console := [] \<rparr>"

subsection \<open>Sample inputs\<close>

text \<open>
  An open session with remote handle 1, an invocation of the registered tool with
  call id \<open>i\<close> and the listed arguments, a message carrying only a tool-call batch, and
  a message carrying only audio.
\<close>

definition openSession :: session_state where
  "openSession =
     (initial None None)\<lparr> activeRef := True, sessionRef := Some 1, openSessions := {1},
                            isConnected := True, isStreaming := True \<rparr>"

definition callWith :: "string \<Rightarrow> (string \<times> jsval) list \<Rightarrow> functionCall" where
  "callWith i kvs =
     \<lparr> fc_id = Some i, fc_name = Some ''updateTriageStatus'', fc_args = Some (map_of kvs) \<rparr>"

definition toolMessage :: "functionCall list \<Rightarrow> serverMessage" where
  "toolMessage fcs =
     \<lparr> inlineData = None, toolCall = Some (Some fcs), inputTranscription = None,
       outputTranscription = None \<rparr>"

definition audioMessage :: "string \<Rightarrow> serverMessage" where
  "audioMessage a =
     \<lparr> inlineData = Some a, toolCall = None, inputTranscription = None,
       outputTranscription = None \<rparr>"

text \<open>
  A session that streams from a 640 by 480 camera, and the component as mounted, with
  its video and canvas elements and nothing started.
\<close>

definition streamingSession :: session_state where
  "streamingSession =
     openSession\<lparr> videoRef := Some \<lparr> srcObject = Some 1, videoWidth = 640, videoHeight = 480 \<rparr>,
                   canvasRef := Some \<lparr> hasContext2d = True, width = 300, height = 150 \<rparr>,
                   liveStreams := {1} \<rparr>"

definition mounted :: session_state where
  "mounted = initial (Some \<lparr> srcObject = None, videoWidth = 0, videoHeight = 0 \<rparr>)
                     (Some \<lparr> hasContext2d = True, width = 300, height = 150 \<rparr>)"

text \<open>
  Two runs of \<open>startSession\<close> from the mounted component in which \<open>stopSession\<close> is
  called while the function is suspended: at \<open>audioCtx.resume()\<close>, with the connection
  coming up afterwards, and at \<open>getUserMedia()\<close>. Stream, context, analyser and remote
  session get handle 1, the two audio nodes handles 1 and 2.
\<close>

definition stopDuringResume :: session_state where
  "stopDuringResume =
     sessionPromise_then 1
       (startSession_afterResume 1 1 1 2
          (stopSession
             (startSession_afterUserMedia 1 1
                (startSession_afterLocation ''12.9716, 77.5946'' (startSession mounted)))))"

definition stopDuringUserMedia :: session_state where
  "stopDuringUserMedia =
     startSession_afterUserMedia 1 1
       (stopSession (startSession_afterLocation ''12.9716, 77.5946'' (startSession mounted)))"

text \<open>
  A first session in which one 0.5 s chunk was scheduled at clock time 1, and the
  session that the next \<open>startSession\<close> brings up: new stream, context and remote
  session with handle 2, audio nodes 3 and 4.
\<close>

definition firstSessionPlayed :: session_state where
  "firstSessionPlayed = scheduleChunk (+) 1 0.5 openSession"

definition restartedSession :: session_state where
  "restartedSession =
     onopen
       (sessionPromise_then 2
          (startSession_afterResume 2 2 3 4
             (startSession_afterUserMedia 2 2
                (startSession_afterLocation ''12.9716, 77.5946''
                   (startSession firstSessionPlayed)))))"

text \<open>A message with audio, one tool call and a transcript of the model's speech.\<close>

definition staleMessage :: serverMessage where
  "staleMessage =
     \<lparr> inlineData = Some ''pcm'',
       toolCall = Some (Some [callWith ''c1'' [(''immediateAction'', JStr ''Start CPR now'')]]),
       inputTranscription = None,
       outputTranscription = Some ''Begin compressions'' \<rparr>"

section \<open>Playback scheduling is gapless\<close>

lemma dispatchCall_audio:
  "dispatchCall ts fc acc = Inr acc' \<Longrightarrow>
     playback (fst acc') = playback (fst acc)
     \<and> nextStartTimeRef (fst acc') = nextStartTimeRef (fst acc)"
  by (auto simp: dispatchCall_def Let_def split: if_splits option.splits jsval.splits)

lemma dispatchCall_audio_err:
  "dispatchCall ts fc acc = Inl e \<Longrightarrow>
     playback (snd e) = playback (fst acc)
     \<and> nextStartTimeRef (snd e) = nextStartTimeRef (fst acc)"
  by (auto simp: dispatchCall_def Let_def split: if_splits option.splits jsval.splits)

lemma functionCallsLoop_audio:
  "functionCallsLoop ts fcs acc = Inr acc' \<Longrightarrow>
     playback (fst acc') = playback (fst acc)
     \<and> nextStartTimeRef (fst acc') = nextStartTimeRef (fst acc)"
proof (induction fcs arbitrary: acc)
  case Nil
  then show ?case by simp
next
  case (Cons fc fcs)
  then show ?case
    by (auto split: sum.splits dest!: dispatchCall_audio)
qed

lemma functionCallsLoop_audio_err:
  "functionCallsLoop ts fcs acc = Inl e \<Longrightarrow>
     playback (snd e) = playback (fst acc)
     \<and> nextStartTimeRef (snd e) = nextStartTimeRef (fst acc)"
proof (induction fcs arbitrary: acc)
  case Nil
  then show ?case by simp
next
  case (Cons fc fcs)
  then show ?case
    by (auto split: sum.splits dest!: dispatchCall_audio dispatchCall_audio_err)
qed

lemma toolCallPhase_audio:
  "toolCallPhase ts m s = Inr s' \<Longrightarrow>
     playback s' = playback s \<and> nextStartTimeRef s' = nextStartTimeRef s"
  by (auto simp: toolCallPhase_def split: option.splits sum.splits if_splits
      dest!: functionCallsLoop_audio)

lemma toolCallPhase_audio_err:
  "toolCallPhase ts m s = Inl e \<Longrightarrow>
     playback (snd e) = playback s \<and> nextStartTimeRef (snd e) = nextStartTimeRef s"
  by (auto simp: toolCallPhase_def split: option.splits sum.splits if_splits
      dest!: functionCallsLoop_audio_err)

lemma transcriptionPhase_audio:
  "playback (transcriptionPhase m s) = playback s
   \<and> nextStartTimeRef (transcriptionPhase m s) = nextStartTimeRef s"
  by (simp add: transcriptionPhase_def Let_def split: option.splits)

lemma tail_audio:
  "playback (handleServerMessage_tail ts m s) = playback s
   \<and> nextStartTimeRef (handleServerMessage_tail ts m s) = nextStartTimeRef s"
  by (auto simp: handleServerMessage_tail_def catchMessageError_def transcriptionPhase_audio
      split: sum.splits dest!: toolCallPhase_audio toolCallPhase_audio_err)

lemma resume_audio_step:
  "playback (handleServerMessage_resume add t ts m (Some d) s)
     = playback s @ [(max (nextStartTimeRef s) t, d)]
   \<and> nextStartTimeRef (handleServerMessage_resume add t ts m (Some d) s)
     = add (max (nextStartTimeRef s) t) d"
  by (simp add: handleServerMessage_resume_def tail_audio scheduleChunk_def Let_def)

lemma handle_audio_step:
  assumes "audioDataOf m = Some a" and "decode a = Some d"
  shows "playback (handleServerMessage add decode t ts m s)
       = playback s @ [(max (nextStartTimeRef s) t, d)]
     \<and> nextStartTimeRef (handleServerMessage add decode t ts m s)
       = add (max (nextStartTimeRef s) t) d"
  using assms by (simp add: handleServerMessage_def resume_audio_step)

lemma handle_audio_none:
  assumes "audioDataOf m = None \<or> (\<exists>a. audioDataOf m = Some a \<and> decode a = None)"
  shows "playback (handleServerMessage add decode t ts m s) = playback s
     \<and> nextStartTimeRef (handleServerMessage add decode t ts m s) = nextStartTimeRef s"
  using assms
  by (auto simp: handleServerMessage_def handleServerMessage_resume_def tail_audio
      catchMessageError_def)

lemma intervalsDisjoint_snoc:
  "intervalsDisjoint add (ps @ [p]) =
     (intervalsDisjoint add ps \<and> list_all (\<lambda>q. add (fst q) (snd q) \<le> fst p) ps)"
  by (induction ps) (auto simp: list_all_iff)

lemma audio_cases:
  "(\<exists>a d. audioDataOf m = Some a \<and> decode a = Some d)
   \<or> audioDataOf m = None \<or> (\<exists>a. audioDataOf m = Some a \<and> decode a = None)"
  by (cases "audioDataOf m") auto

lemma handle_step_mono:
  assumes nonneg: "\<forall>a d. decode a = Some d \<longrightarrow> 0 \<le> d"
    and addmono: "\<forall>x d. 0 \<le> d \<longrightarrow> x \<le> add x d"
  shows "nextStartTimeRef s \<le> nextStartTimeRef (handleServerMessage add decode t ts m s)"
proof -
  consider (good) a d where "audioDataOf m = Some a" "decode a = Some d"
    | (none) "audioDataOf m = None \<or> (\<exists>a. audioDataOf m = Some a \<and> decode a = None)"
    using audio_cases [of m decode] by blast
  then show ?thesis
  proof cases
    case good
    from nonneg good(2) have "0 \<le> d" by blast
    with addmono have "max (nextStartTimeRef s) t \<le> add (max (nextStartTimeRef s) t) d"
      by blast
    with handle_audio_step [of m a decode d add t ts s, OF good] show ?thesis
      by simp
  next
    case none
    from handle_audio_none [of m decode add t ts s, OF none] show ?thesis
      by simp
  qed
qed

lemma handle_step_inv:
  assumes nonneg: "\<forall>a d. decode a = Some d \<longrightarrow> 0 \<le> d"
    and addmono: "\<forall>x d. 0 \<le> d \<longrightarrow> x \<le> add x d"
    and inv: "cursorInv add s"
  shows "cursorInv add (handleServerMessage add decode t ts m s)"
proof -
  consider (good) a d where "audioDataOf m = Some a" "decode a = Some d"
    | (none) "audioDataOf m = None \<or> (\<exists>a. audioDataOf m = Some a \<and> decode a = None)"
    using audio_cases [of m decode] by blast
  then show ?thesis
  proof cases
    case good
    from nonneg good(2) have d0: "0 \<le> d" by blast
    with addmono have up: "max (nextStartTimeRef s) t \<le> add (max (nextStartTimeRef s) t) d"
      by blast
    note st = handle_audio_step [of m a decode d add t ts s, OF good]
    show ?thesis
      using inv up unfolding cursorInv_def st [THEN conjunct1] st [THEN conjunct2]
      by (auto simp: intervalsDisjoint_snoc list_all_iff)
  next
    case none
    from handle_audio_none [of m decode add t ts s, OF none] show ?thesis
      using inv by (simp add: cursorInv_def)
  qed
qed

lemma handleAll_mono:
  assumes nonneg: "\<forall>a d. decode a = Some d \<longrightarrow> 0 \<le> d"
    and addmono: "\<forall>x d. 0 \<le> d \<longrightarrow> x \<le> add x d"
  shows "nextStartTimeRef s \<le> nextStartTimeRef (handleAll add decode evs s)"
proof (induction evs arbitrary: s)
  case Nil
  then show ?case by simp
next
  case (Cons ev evs)
  obtain m t ts where ev: "ev = (m, t, ts)" by (cases ev) auto
  have "nextStartTimeRef s \<le> nextStartTimeRef (handleServerMessage add decode t ts m s)"
    by (rule handle_step_mono [OF nonneg addmono])
  also have "\<dots> \<le> nextStartTimeRef
      (handleAll add decode evs (handleServerMessage add decode t ts m s))"
    by (rule Cons.IH)
  finally show ?case by (simp add: ev)
qed

lemma handleAll_inv:
  assumes nonneg: "\<forall>a d. decode a = Some d \<longrightarrow> 0 \<le> d"
    and addmono: "\<forall>x d. 0 \<le> d \<longrightarrow> x \<le> add x d"
  shows "cursorInv add s \<Longrightarrow> cursorInv add (handleAll add decode evs s)"
proof (induction evs arbitrary: s)
  case Nil
  then show ?case by simp
next
  case (Cons ev evs)
  obtain m t ts where ev: "ev = (m, t, ts)" by (cases ev) auto
  from handle_step_inv [of decode add s t ts m, OF nonneg addmono Cons.prems]
  have "cursorInv add (handleServerMessage add decode t ts m s)" .
  from Cons.IH [OF this] show ?case by (simp add: ev)
qed

text \<open>
  C1, as amended. For every inbound audio chunk the segment is scheduled at the maximum
  of the cursor \<open>nextStartTime\<close> and the audio clock, and the cursor moves to the sum of
  that start and the segment's duration, as the addition of doubles computes it; so
  does the continuation of a decode on whatever state it finds. Hence, over any
  sequence of messages handled at any clock readings, the cursor never decreases and,
  from a consistent timeline (the empty one at mount), no segment starts before the end
  computed for an earlier one. When the cursor is not beyond the clock reading \<open>T\<close>, as
  in the first session after mount, a chunk of duration \<open>d1\<close> (0.5 s) handled at \<open>T\<close>
  is scheduled at \<open>T\<close> and puts the cursor at the sum of \<open>T\<close> and \<open>d1\<close>; a chunk of
  duration \<open>d2\<close> (0.3 s) handled at a reading not beyond that cursor (0.2 s later) is
  then scheduled at that cursor, not at its own reading, and moves the cursor by \<open>d2\<close>:
  to \<open>T + 0.5\<close> and \<open>T + 0.8\<close> up to the rounding of the two sums. Durations of decoded
  buffers are not negative, and adding one never gives less than the first operand.
\<close>

theorem playback_gapless:
  assumes nonneg: "\<forall>a d. decode a = Some d \<longrightarrow> 0 \<le> d"
    and addmono: "\<forall>x d. 0 \<le> d \<longrightarrow> x \<le> add x d"
  shows "(audioDataOf m = Some a \<and> decode a = Some d \<longrightarrow>
            playback (handleServerMessage add decode t ts m s)
              = playback s @ [(max (nextStartTimeRef s) t, d)]
            \<and> nextStartTimeRef (handleServerMessage add decode t ts m s)
              = add (max (nextStartTimeRef s) t) d)
       \<and> playback (handleServerMessage_resume add t ts m (Some d) s)
            = playback s @ [(max (nextStartTimeRef s) t, d)]
       \<and> nextStartTimeRef (handleServerMessage_resume add t ts m (Some d) s)
            = add (max (nextStartTimeRef s) t) d
       \<and> nextStartTimeRef s \<le> nextStartTimeRef (handleAll add decode evs s)
       \<and> (cursorInv add s \<longrightarrow> intervalsDisjoint add (playback (handleAll add decode evs s)))
       \<and> intervalsDisjoint add (playback (handleAll add decode evs (initial v c)))
       \<and> (nextStartTimeRef s \<le> T \<and> audioDataOf m1 = Some a1 \<and> decode a1 = Some d1
            \<and> audioDataOf m2 = Some a2 \<and> decode a2 = Some d2 \<and> T2 \<le> add T d1 \<longrightarrow>
            nextStartTimeRef (handleServerMessage add decode T ts1 m1 s) = add T d1
            \<and> playback (handleAll add decode [(m1, T, ts1), (m2, T2, ts2)] s)
                = playback s @ [(T, d1), (add T d1, d2)]
            \<and> nextStartTimeRef (handleAll add decode [(m1, T, ts1), (m2, T2, ts2)] s)
                = add (add T d1) d2)"
proof (intro conjI impI)
  assume "audioDataOf m = Some a \<and> decode a = Some d"
  then show "playback (handleServerMessage add decode t ts m s)
              = playback s @ [(max (nextStartTimeRef s) t, d)]"
    and "nextStartTimeRef (handleServerMessage add decode t ts m s)
              = add (max (nextStartTimeRef s) t) d"
    using handle_audio_step [of m a decode d add t ts s] by simp_all
next
  show "playback (handleServerMessage_resume add t ts m (Some d) s)
            = playback s @ [(max (nextStartTimeRef s) t, d)]"
    and "nextStartTimeRef (handleServerMessage_resume add t ts m (Some d) s)
            = add (max (nextStartTimeRef s) t) d"
    using resume_audio_step [of add t ts m d s] by simp_all
next
  show "nextStartTimeRef s \<le> nextStartTimeRef (handleAll add decode evs s)"
    by (rule handleAll_mono [OF nonneg addmono])
next
  assume inv: "cursorInv add s"
  from handleAll_inv [of decode add s evs, OF nonneg addmono inv]
  show "intervalsDisjoint add (playback (handleAll add decode evs s))"
    by (simp add: cursorInv_def)
next
  have "cursorInv add (initial v c)"
    by (simp add: cursorInv_def initial_def)
  from handleAll_inv [of decode add "initial v c" evs, OF nonneg addmono this]
  show "intervalsDisjoint add (playback (handleAll add decode evs (initial v c)))"
    by (simp add: cursorInv_def)
next
  assume h: "nextStartTimeRef s \<le> T \<and> audioDataOf m1 = Some a1 \<and> decode a1 = Some d1
            \<and> audioDataOf m2 = Some a2 \<and> decode a2 = Some d2 \<and> T2 \<le> add T d1"
  then have a1: "audioDataOf m1 = Some a1" and d1: "decode a1 = Some d1"
    and a2: "audioDataOf m2 = Some a2" and d2: "decode a2 = Some d2"
    and le: "nextStartTimeRef s \<le> T" and le2: "T2 \<le> add T d1" by simp_all
  note s1 = handle_audio_step [of m1 a1 decode d1 add T ts1 s, OF a1 d1]
  note s2 = handle_audio_step [of m2 a2 decode d2 add T2 ts2
      "handleServerMessage add decode T ts1 m1 s", OF a2 d2]
  show c1: "nextStartTimeRef (handleServerMessage add decode T ts1 m1 s) = add T d1"
    using s1 le by (simp add: max_def)
  show "playback (handleAll add decode [(m1, T, ts1), (m2, T2, ts2)] s)
                = playback s @ [(T, d1), (add T d1, d2)]"
    using s1 s2 le le2 c1 by (simp add: max_def)
  show "nextStartTimeRef (handleAll add decode [(m1, T, ts1), (m2, T2, ts2)] s)
          = add (add T d1) d2"
    using s2 le2 c1 by (simp add: max_def)
qed

theorem playback_gapless_witness:
  "playback (handleAll (+) (\<lambda>a. if a = ''A'' then Some 0.5 else Some 0.25)
       [(audioMessage ''A'', 1, 0), (audioMessage ''B'', 1.25, 0)] (initial None None))
     = [(1, 0.5), (1.5, 0.25)]
   \<and> nextStartTimeRef (handleAll (+) (\<lambda>a. if a = ''A'' then Some 0.5 else Some 0.25)
       [(audioMessage ''A'', 1, 0), (audioMessage ''B'', 1.25, 0)] (initial None None))
     = 1.75
   \<and> intervalsDisjoint (+)
       (playback (handleAll (+) (\<lambda>a. if a = ''A'' then Some 0.5 else Some 0.25)
          [(audioMessage ''A'', 1, 0), (audioMessage ''B'', 1.25, 0)] (initial None None)))"
proof -
  let ?dec = "\<lambda>a. if a = ''A'' then Some (0.5::real) else Some 0.25"
  let ?m1 = "audioMessage ''A''"
  let ?m2 = "audioMessage ''B''"
  let ?evs = "[(?m1, 1::real, 0::nat), (?m2, 1.25, 0)]"
  have h: "\<forall>a d. ?dec a = Some d \<longrightarrow> 0 \<le> d" by (simp split: if_splits)
  have am: "\<forall>x d. 0 \<le> d \<longrightarrow> x \<le> (+) x (d::real)" by simp
  have c: "nextStartTimeRef (initial None None) \<le> 1 \<and> audioDataOf ?m1 = Some ''A''
      \<and> ?dec ''A'' = Some 0.5 \<and> audioDataOf ?m2 = Some ''B'' \<and> ?dec ''B'' = Some 0.25
      \<and> (1.25::real) \<le> (+) 1 0.5"
    by (simp add: initial_def audioDataOf_def audioMessage_def)
  have p: "playback (initial None None) = []" by (simp add: initial_def)
  note th = playback_gapless [of ?dec "(+)" ?m1 "''A''" "0.5" 1 0 "initial None None" ?evs
      None None 1 ?m1 "''A''" "0.5" ?m2 "''B''" "0.25" "1.25" 0 0, OF h am]
  from th c p show ?thesis by simp
qed

text \<open>
  C1 as stated fails for the scenario at session open: the cursor is written by the
  scheduler alone and kept across stop and start, while every start creates an audio
  context whose clock begins again. In a session started after one that left the
  cursor at 1.5, a 0.5 s chunk handled at clock time 0.25 is scheduled at 1.5 and
  leaves the cursor at 2, not at 0.75.
\<close>

theorem restart_scenario_counterexample:
  "activeRef restartedSession
   \<and> sessionRef restartedSession = Some 2
   \<and> playback restartedSession = [(1, 0.5)]
   \<and> playback (handleServerMessage (+) (\<lambda>a. Some 0.5) 0.25 0 (audioMessage ''A'')
        restartedSession) = [(1, 0.5), (1.5, 0.5)]
   \<and> nextStartTimeRef (handleServerMessage (+) (\<lambda>a. Some 0.5) 0.25 0 (audioMessage ''A'')
        restartedSession) = 2
   \<and> nextStartTimeRef (handleServerMessage (+) (\<lambda>a. Some 0.5) 0.25 0 (audioMessage ''A'')
        restartedSession) \<noteq> 0.25 + 0.5"
  by (simp add: restartedSession_def firstSessionPlayed_def openSession_def initial_def
      audioMessage_def startSession_def startSession_afterLocation_def
      startSession_afterUserMedia_def startSession_afterResume_def sessionPromise_then_def
      onopen_def stopSession_def stopAudioProcessing_def closeAudioContext_def
      stopVideoProcessing_def closeGenAISession_def handleServerMessage_def
      handleServerMessage_resume_def handleServerMessage_tail_def toolCallPhase_def
      transcriptionPhase_def audioDataOf_def scheduleChunk_def Let_def)

lemmas example_defs =
  openSession_def callWith_def toolMessage_def audioMessage_def initial_def

lemmas handler_defs =
  handleServerMessage_def handleServerMessage_resume_def handleServerMessage_tail_def
  toolCallPhase_def transcriptionPhase_def catchMessageError_def audioDataOf_def
  dispatchCall_def statusData_def arg_def scheduleChunk_def Let_def

lemma isCPRAction_examples:
  "isCPRAction ''Start CPR now''" "\<not> isCPRAction ''Rest''"
  by (simp_all add: isCPRAction_def toLowerCase_def toLowerChar_def Let_def)

section \<open>A failed decode leaves the cursor alone\<close>

text \<open>
  C8. When decoding the audio of a message fails, the handler logs the failure and
  changes nothing else: the chunk is dropped, \<open>nextStartTime\<close> and the playback
  timeline are as before, the session stays as active as it was, and the next chunk
  that decodes is scheduled at the maximum of the old cursor and its own clock reading,
  the cursor moving on by its duration.
\<close>

theorem decode_failure_keeps_cursor:
  assumes a: "audioDataOf m = Some a" and d: "decode a = None"
  shows "handleServerMessage add decode t ts m s
           = s\<lparr> console := console s @ [''Error processing server message''] \<rparr>
       \<and> nextStartTimeRef (handleServerMessage add decode t ts m s) = nextStartTimeRef s
       \<and> playback (handleServerMessage add decode t ts m s) = playback s
       \<and> activeRef (handleServerMessage add decode t ts m s) = activeRef s
       \<and> (audioDataOf m2 = Some a2 \<and> decode a2 = Some d2 \<longrightarrow>
            playback (handleServerMessage add decode t2 ts2 m2 (handleServerMessage add decode t ts m s))
              = playback s @ [(max (nextStartTimeRef s) t2, d2)]
            \<and> nextStartTimeRef
                (handleServerMessage add decode t2 ts2 m2 (handleServerMessage add decode t ts m s))
              = add (max (nextStartTimeRef s) t2) d2)"
proof -
  have 1: "handleServerMessage add decode t ts m s
           = s\<lparr> console := console s @ [''Error processing server message''] \<rparr>"
    using a d
    by (simp add: handleServerMessage_def handleServerMessage_resume_def catchMessageError_def)
  have 2: "audioDataOf m2 = Some a2 \<and> decode a2 = Some d2 \<longrightarrow>
            playback (handleServerMessage add decode t2 ts2 m2 (handleServerMessage add decode t ts m s))
              = playback s @ [(max (nextStartTimeRef s) t2, d2)]
            \<and> nextStartTimeRef
                (handleServerMessage add decode t2 ts2 m2 (handleServerMessage add decode t ts m s))
              = add (max (nextStartTimeRef s) t2) d2"
  proof
    assume h: "audioDataOf m2 = Some a2 \<and> decode a2 = Some d2"
    from handle_audio_step [of m2 a2 decode d2 add t2 ts2
        "handleServerMessage add decode t ts m s"] h
    show "playback (handleServerMessage add decode t2 ts2 m2 (handleServerMessage add decode t ts m s))
              = playback s @ [(max (nextStartTimeRef s) t2, d2)]
            \<and> nextStartTimeRef
                (handleServerMessage add decode t2 ts2 m2 (handleServerMessage add decode t ts m s))
              = add (max (nextStartTimeRef s) t2) d2"
      by (simp add: 1)
  qed
  from 1 2 show ?thesis by simp
qed

theorem decode_failure_keeps_cursor_witness:
  "nextStartTimeRef (handleServerMessage (+) (\<lambda>a. if a = ''ok'' then Some 0.5 else None) 2 0
       (audioMessage ''bad'')
       (handleServerMessage (+) (\<lambda>a. if a = ''ok'' then Some 0.5 else None) 1 0
          (audioMessage ''ok'') openSession)) = 1.5
   \<and> playback (handleServerMessage (+) (\<lambda>a. if a = ''ok'' then Some 0.5 else None) 3 0
       (audioMessage ''ok'')
       (handleServerMessage (+) (\<lambda>a. if a = ''ok'' then Some 0.5 else None) 1.25 0
          (audioMessage ''bad'')
          (handleServerMessage (+) (\<lambda>a. if a = ''ok'' then Some 0.5 else None) 1 0
             (audioMessage ''ok'') openSession))) = [(1, 0.5), (3, 0.5)]"
proof -
  let ?dec = "\<lambda>a. if a = ''ok'' then Some (0.5::real) else None"
  let ?s1 = "handleServerMessage (+) ?dec 1 0 (audioMessage ''ok'') openSession"
  have a: "audioDataOf (audioMessage ''bad'') = Some ''bad''"
    and a2: "audioDataOf (audioMessage ''ok'') = Some ''ok''"
    by (simp_all add: audioDataOf_def audioMessage_def)
  have d: "?dec ''bad'' = None" and d2: "?dec ''ok'' = Some 0.5" by simp_all
  have s1: "nextStartTimeRef ?s1 = 1.5" "playback ?s1 = [(1, 0.5)]"
    using handle_audio_step [of "audioMessage ''ok''" "''ok''" ?dec "0.5" "(+)" 1 0 openSession,
        OF a2 d2]
    by (simp_all add: openSession_def initial_def)
  note f1 = decode_failure_keeps_cursor [of "audioMessage ''bad''" "''bad''" ?dec "(+)" 2 0 ?s1,
      OF a d]
  note f2 = decode_failure_keeps_cursor [of "audioMessage ''bad''" "''bad''" ?dec "(+)" "1.25" 0 ?s1
      "audioMessage ''ok''" "''ok''" "0.5" 3 0, OF a d]
  from f1 [THEN conjunct2, THEN conjunct1]
  have 1: "nextStartTimeRef (handleServerMessage (+) ?dec 2 0 (audioMessage ''bad'') ?s1) = 1.5"
    using s1 by simp
  from f2 [THEN conjunct2, THEN conjunct2, THEN conjunct2, THEN conjunct2] a2 d2
  have 2: "playback (handleServerMessage (+) ?dec 3 0 (audioMessage ''ok'')
       (handleServerMessage (+) ?dec 1.25 0 (audioMessage ''bad'') ?s1)) = [(1, 0.5), (3, 0.5)]"
    using s1 by simp
  from 1 2 show ?thesis by simp
qed

section \<open>Tool-call batches\<close>

lemma dispatchCall_frame:
  "exceptDashboard (stateAfter (dispatchCall ts fc (s, rs))) = exceptDashboard s"
  by (simp add: dispatchCall_def stateAfter_def exceptDashboard_def Let_def
      split: option.splits jsval.splits)

lemma dispatchCall_ok:
  "fc_name fc = Some ''updateTriageStatus'' \<Longrightarrow> hasActionText fc \<Longrightarrow>
     \<exists>s'. dispatchCall ts fc (s, rs) = Inr (s', rs @ [responseOf fc])"
  by (auto simp: dispatchCall_def hasActionText_def responseOf_def Let_def
      split: option.splits jsval.splits)

lemma dispatchCall_skip:
  "fc_name fc \<noteq> Some ''updateTriageStatus'' \<Longrightarrow> dispatchCall ts fc (s, rs) = Inr (s, rs)"
  by (simp add: dispatchCall_def)

lemma dispatchCall_throws:
  "fc_name fc = Some ''updateTriageStatus'' \<Longrightarrow> \<not> hasActionText fc \<Longrightarrow>
     \<exists>s'. dispatchCall ts fc (s, rs) = Inl (TypeError, s')"
  by (auto simp: dispatchCall_def hasActionText_def Let_def
      split: option.splits jsval.splits)

lemma loop_frame:
  "exceptDashboard (stateAfter (functionCallsLoop ts fcs (s, rs))) = exceptDashboard s"
proof (induction fcs arbitrary: s rs)
  case Nil
  then show ?case by (simp add: stateAfter_def)
next
  case (Cons fc fcs)
  show ?case
  proof (cases "dispatchCall ts fc (s, rs)")
    case (Inl e)
    with dispatchCall_frame [of ts fc s rs] show ?thesis
      by (simp add: stateAfter_def)
  next
    case (Inr p)
    obtain s1 rs1 where p: "p = (s1, rs1)" by (cases p) auto
    from dispatchCall_frame [of ts fc s rs] Inr p
    have "exceptDashboard s1 = exceptDashboard s" by (simp add: stateAfter_def)
    with Cons.IH [of s1 rs1] Inr p show ?thesis by simp
  qed
qed

lemma loop_ok:
  "\<forall>fc \<in> set (matched fcs). hasActionText fc \<Longrightarrow>
     \<exists>s'. functionCallsLoop ts fcs (s, rs) = Inr (s', rs @ map responseOf (matched fcs))"
proof (induction fcs arbitrary: s rs)
  case Nil
  then show ?case by (simp add: matched_def)
next
  case (Cons fc fcs)
  show ?case
  proof (cases "fc_name fc = Some ''updateTriageStatus''")
    case True
    with Cons.prems have "hasActionText fc" by (simp add: matched_def)
    from dispatchCall_ok [OF True this, of ts s rs]
    obtain s1 where 1: "dispatchCall ts fc (s, rs) = Inr (s1, rs @ [responseOf fc])" by blast
    from Cons.prems have "\<forall>fc \<in> set (matched fcs). hasActionText fc"
      by (simp add: matched_def)
    from Cons.IH [OF this, of s1 "rs @ [responseOf fc]"] 1 True
    show ?thesis by (simp add: matched_def)
  next
    case False
    from Cons.prems False have "\<forall>fc \<in> set (matched fcs). hasActionText fc"
      by (simp add: matched_def)
    from Cons.IH [OF this, of s rs] dispatchCall_skip [OF False, of ts s rs] False
    show ?thesis by (simp add: matched_def)
  qed
qed

lemma loop_throws:
  assumes pre: "\<forall>p \<in> set (matched pre). hasActionText p"
    and n: "fc_name fc = Some ''updateTriageStatus''"
    and bad: "\<not> hasActionText fc"
  shows "\<exists>s'. functionCallsLoop ts (pre @ fc # post) (s, rs) = Inl (TypeError, s')"
  using pre
proof (induction pre arbitrary: s rs)
  case Nil
  from dispatchCall_throws [OF n bad, of ts s rs] show ?case by auto
next
  case (Cons p pre)
  show ?case
  proof (cases "fc_name p = Some ''updateTriageStatus''")
    case True
    with Cons.prems have "hasActionText p" by (simp add: matched_def)
    from dispatchCall_ok [OF True this, of ts s rs]
    obtain s1 where 1: "dispatchCall ts p (s, rs) = Inr (s1, rs @ [responseOf p])" by blast
    from Cons.prems have "\<forall>p \<in> set (matched pre). hasActionText p"
      by (simp add: matched_def)
    from Cons.IH [OF this, of s1 "rs @ [responseOf p]"] 1 show ?thesis by simp
  next
    case False
    from Cons.prems False have "\<forall>p \<in> set (matched pre). hasActionText p"
      by (simp add: matched_def)
    from Cons.IH [OF this, of s rs] dispatchCall_skip [OF False, of ts s rs]
    show ?thesis by simp
  qed
qed

lemma exceptDashboard_sel:
  "sent (exceptDashboard s) = sent s" "activeRef (exceptDashboard s) = activeRef s"
  "sessionRef (exceptDashboard s) = sessionRef s"
  "transcription (exceptDashboard s) = transcription s"
  "nextStartTimeRef (exceptDashboard s) = nextStartTimeRef s"
  by (simp_all add: exceptDashboard_def)

lemma exceptDashboard_fields:
  assumes "exceptDashboard s' = exceptDashboard s"
  shows "sent s' = sent s \<and> activeRef s' = activeRef s \<and> sessionRef s' = sessionRef s
     \<and> transcription s' = transcription s \<and> nextStartTimeRef s' = nextStartTimeRef s"
proof -
  have "sent (exceptDashboard s') = sent (exceptDashboard s)"
    "activeRef (exceptDashboard s') = activeRef (exceptDashboard s)"
    "sessionRef (exceptDashboard s') = sessionRef (exceptDashboard s)"
    "transcription (exceptDashboard s') = transcription (exceptDashboard s)"
    "nextStartTimeRef (exceptDashboard s') = nextStartTimeRef (exceptDashboard s)"
    using assms by simp_all
  then show ?thesis by (simp only: exceptDashboard_sel)
qed


lemma functionCallsLoop_append:
  "functionCallsLoop ts (xs @ ys) acc =
     (case functionCallsLoop ts xs acc of
        Inl e \<Rightarrow> Inl e
      | Inr acc' \<Rightarrow> functionCallsLoop ts ys acc')"
  by (induction xs arbitrary: acc) (auto split: sum.splits)

lemma transcriptionPhase_sent:
  "sent (transcriptionPhase m s) = sent s"
  by (simp add: transcriptionPhase_def Let_def split: option.splits)

lemma tail_sent_ok:
  assumes tc: "toolCall m = Some (Some fcs)"
    and wf: "\<forall>fc \<in> set (matched fcs). hasActionText fc"
  shows "sent (handleServerMessage_tail ts m s) =
           (case sessionRef s of
              None \<Rightarrow> sent s
            | Some sess \<Rightarrow>
                if matched fcs \<noteq> [] \<and> activeRef s
                then sent s @ [(sess, ToolResponse (map responseOf (matched fcs)))]
                else sent s)"
proof -
  from loop_ok [OF wf, of ts s "[]"]
  obtain s1 where 1: "functionCallsLoop ts fcs (s, []) = Inr (s1, map responseOf (matched fcs))"
    by auto
  from loop_frame [of ts fcs s "[]"] 1
  have "exceptDashboard s1 = exceptDashboard s" by (simp add: stateAfter_def)
  from exceptDashboard_fields [OF this]
  have f: "sent s1 = sent s" "activeRef s1 = activeRef s" "sessionRef s1 = sessionRef s"
    by simp_all
  show ?thesis
    using tc 1 f
    by (simp add: handleServerMessage_tail_def toolCallPhase_def transcriptionPhase_sent
        split: option.splits)
qed

lemma handle_as_tail:
  assumes dec: "\<forall>a. audioDataOf m = Some a \<longrightarrow> decode a \<noteq> None"
  shows "\<exists>s0. handleServerMessage add decode t ts m s = handleServerMessage_tail ts m s0
            \<and> sent s0 = sent s \<and> activeRef s0 = activeRef s \<and> sessionRef s0 = sessionRef s
            \<and> isCPRMode s0 = isCPRMode s"
proof (cases "audioDataOf m")
  case None
  then show ?thesis by (auto simp: handleServerMessage_def)
next
  case (Some a)
  with dec obtain d where "decode a = Some d" by auto
  with Some have "handleServerMessage add decode t ts m s
      = handleServerMessage_tail ts m (scheduleChunk add t d s)"
    by (simp add: handleServerMessage_def handleServerMessage_resume_def)
  moreover have "sent (scheduleChunk add t d s) = sent s"
    "activeRef (scheduleChunk add t d s) = activeRef s"
    "sessionRef (scheduleChunk add t d s) = sessionRef s"
    "isCPRMode (scheduleChunk add t d s) = isCPRMode s"
    by (simp_all add: scheduleChunk_def Let_def)
  ultimately show ?thesis by blast
qed

text \<open>
  C4, as amended. For a tool-call batch in which every invocation of the registered
  tool carries a string \<open>immediateAction\<close> (and whose message has no audio that fails
  to decode): with at least one such invocation, the session active and the remote
  handle set, exactly one response message is appended to the outbound messages,
  holding one triple per matched invocation, in order, with the call ids and names of
  the invocations; with no matched invocation nothing is sent.
\<close>

theorem tool_batch_single_response:
  assumes tc: "toolCall m = Some (Some fcs)"
    and wf: "\<forall>fc \<in> set (matched fcs). hasActionText fc"
    and dec: "\<forall>a. audioDataOf m = Some a \<longrightarrow> decode a \<noteq> None"
  shows "(matched fcs \<noteq> [] \<and> activeRef s \<and> sessionRef s = Some sess \<longrightarrow>
            sent (handleServerMessage add decode t ts m s)
              = sent s @ [(sess, ToolResponse (map responseOf (matched fcs)))])
       \<and> (matched fcs = [] \<longrightarrow> sent (handleServerMessage add decode t ts m s) = sent s)
       \<and> map fr_id (map responseOf (matched fcs)) = map fc_id (matched fcs)
       \<and> map fr_name (map responseOf (matched fcs)) = map fc_name (matched fcs)"
proof -
  from handle_as_tail [OF dec, of add t ts s]
  obtain s0 where h: "handleServerMessage add decode t ts m s = handleServerMessage_tail ts m s0"
    and f: "sent s0 = sent s" "activeRef s0 = activeRef s" "sessionRef s0 = sessionRef s"
    by blast
  note st = tail_sent_ok [OF tc wf, of ts s0]
  have 1: "matched fcs \<noteq> [] \<and> activeRef s \<and> sessionRef s = Some sess \<longrightarrow>
            sent (handleServerMessage add decode t ts m s)
              = sent s @ [(sess, ToolResponse (map responseOf (matched fcs)))]"
    using st h f by simp
  have 2: "matched fcs = [] \<longrightarrow> sent (handleServerMessage add decode t ts m s) = sent s"
    using st h f by (simp split: option.splits)
  have 3: "map fr_id (map responseOf (matched fcs)) = map fc_id (matched fcs)"
    "map fr_name (map responseOf (matched fcs)) = map fc_name (matched fcs)"
    by (simp_all add: responseOf_def)
  from 1 2 3 show ?thesis by blast
qed

theorem tool_batch_single_response_witness:
  "sent (handleServerMessage (+) (\<lambda>a. None) 0 0
      (toolMessage [callWith ''c1'' [(''immediateAction'', JStr ''Rest'')],
                    callWith ''c2'' [(''immediateAction'', JStr ''Start CPR now'')]])
      openSession)
   = [(1, ToolResponse
        [\<lparr> fr_id = Some ''c1'', fr_name = Some ''updateTriageStatus'',
            fr_result = ''Status updated.'' \<rparr>,
         \<lparr> fr_id = Some ''c2'', fr_name = Some ''updateTriageStatus'',
            fr_result = ''Status updated.'' \<rparr>])]"
proof -
  let ?fcs = "[callWith ''c1'' [(''immediateAction'', JStr ''Rest'')],
               callWith ''c2'' [(''immediateAction'', JStr ''Start CPR now'')]]"
  have tc: "toolCall (toolMessage ?fcs) = Some (Some ?fcs)"
    by (simp add: toolMessage_def)
  have m: "matched ?fcs = ?fcs" by (simp add: matched_def callWith_def)
  have wf: "\<forall>fc \<in> set (matched ?fcs). hasActionText fc"
    unfolding m by (simp add: hasActionText_def callWith_def arg_def)
  have dec: "\<forall>a. audioDataOf (toolMessage ?fcs) = Some a \<longrightarrow> (\<lambda>a. None :: real option) a \<noteq> None"
    by (simp add: audioDataOf_def toolMessage_def)
  from tool_batch_single_response [OF tc wf dec, of openSession 1 "(+)" 0 0]
  show ?thesis
    unfolding m by (simp add: openSession_def initial_def responseOf_def callWith_def)
qed

text \<open>
  C4 as stated fails: a batch of two invocations of the registered tool, the second
  without \<open>immediateAction\<close>, in an active session with a remote handle, sends nothing.
\<close>

theorem tool_batch_counterexample:
  "matched [callWith ''c1'' [(''immediateAction'', JStr ''Rest'')], callWith ''c2'' []] \<noteq> []
   \<and> activeRef openSession \<and> sessionRef openSession = Some 1
   \<and> sent (handleServerMessage (+) (\<lambda>a. None) 0 0
        (toolMessage [callWith ''c1'' [(''immediateAction'', JStr ''Rest'')], callWith ''c2'' []])
        openSession) = []"
  by (simp add: matched_def example_defs handler_defs isCPRAction_examples)

section \<open>Malformed tool arguments\<close>







section \<open>Keyword matching on the immediate action\<close>

lemma startsWith_prefix: "startsWith text n = prefix n text"
  by (induction "text" n rule: startsWith.induct) auto

lemma includesStr_sublist: "includesStr text n = sublist n text"
proof (induction "text")
  case Nil
  then show ?case by simp
next
  case (Cons c cs)
  then show ?case
    by (simp add: startsWith_prefix sublist_Cons_right)
qed

lemma sublist_map_iff:
  "sublist kw (map f text) = (\<exists>u. sublist u text \<and> map f u = kw)"
proof
  assume "sublist kw (map f text)"
  then obtain ps ss where "map f text = ps @ kw @ ss" by (auto simp: sublist_def)
  then have "\<exists>us vs. text = us @ vs \<and> ps = map f us \<and> kw @ ss = map f vs"
    by (simp only: map_eq_append_conv)
  then obtain p vs where 1: "text = p @ vs" and 2: "map f vs = kw @ ss"
    by metis
  from 2 have "\<exists>us r. vs = us @ r \<and> kw = map f us \<and> ss = map f r"
    by (simp only: map_eq_append_conv)
  then obtain u r where 3: "vs = u @ r" and 4: "map f u = kw"
    by metis
  from 1 3 have "sublist u text" by simp
  with 4 show "\<exists>u. sublist u text \<and> map f u = kw" by blast
next
  assume "\<exists>u. sublist u text \<and> map f u = kw"
  then show "sublist kw (map f text)" using map_mono_sublist by blast
qed

text \<open>The table of \<open>toLowerChar\<close> against the character codes.\<close>

lemmas char_eq_code = of_char_eq_iff [where ?'a = nat, symmetric]

lemma upper_in_table:
  "isUpperCaseLetter c \<Longrightarrow> c \<in> set ''ABCDEFGHIJKLMNOPQRSTUVWXYZ''"
proof -
  assume u: "isUpperCaseLetter c"
  define n where "n = (of_char c :: nat)"
  from u have "65 \<le> n" "n \<le> 90" by (simp_all add: isUpperCaseLetter_def n_def)
  then have "n = 65 \<or> n = 66 \<or> n = 67 \<or> n = 68 \<or> n = 69 \<or> n = 70 \<or> n = 71 \<or> n = 72
      \<or> n = 73 \<or> n = 74 \<or> n = 75 \<or> n = 76 \<or> n = 77 \<or> n = 78 \<or> n = 79 \<or> n = 80
      \<or> n = 81 \<or> n = 82 \<or> n = 83 \<or> n = 84 \<or> n = 85 \<or> n = 86 \<or> n = 87 \<or> n = 88
      \<or> n = 89 \<or> n = 90"
    by arith
  then show ?thesis by (simp add: char_eq_code n_def)
qed

lemma table_is_upper:
  assumes "c \<in> set ''ABCDEFGHIJKLMNOPQRSTUVWXYZ''"
  shows "isUpperCaseLetter c \<and> (of_char (toLowerChar c) :: nat) = of_char c + 32"
proof -
  from assms have "c = CHR ''A'' \<or> c = CHR ''B'' \<or> c = CHR ''C'' \<or> c = CHR ''D''
      \<or> c = CHR ''E'' \<or> c = CHR ''F'' \<or> c = CHR ''G'' \<or> c = CHR ''H'' \<or> c = CHR ''I''
      \<or> c = CHR ''J'' \<or> c = CHR ''K'' \<or> c = CHR ''L'' \<or> c = CHR ''M'' \<or> c = CHR ''N''
      \<or> c = CHR ''O'' \<or> c = CHR ''P'' \<or> c = CHR ''Q'' \<or> c = CHR ''R'' \<or> c = CHR ''S''
      \<or> c = CHR ''T'' \<or> c = CHR ''U'' \<or> c = CHR ''V'' \<or> c = CHR ''W'' \<or> c = CHR ''X''
      \<or> c = CHR ''Y'' \<or> c = CHR ''Z''"
    by simp
  then show ?thesis
    by (elim disjE) (simp_all add: isUpperCaseLetter_def toLowerChar_def)
qed

lemma toLowerChar_code:
  "(of_char (toLowerChar c) :: nat)
     = (if isUpperCaseLetter c then of_char c + 32 else of_char c)"
proof (cases "isUpperCaseLetter c")
  case True
  from table_is_upper [OF upper_in_table [OF True]] True show ?thesis by simp
next
  case False
  then have "c \<notin> set ''ABCDEFGHIJKLMNOPQRSTUVWXYZ''" using table_is_upper by blast
  then have "map_of (zip ''ABCDEFGHIJKLMNOPQRSTUVWXYZ'' ''abcdefghijklmnopqrstuvwxyz'') c = None"
    by (simp add: map_of_eq_None_iff)
  with False show ?thesis by (simp add: toLowerChar_def)
qed

lemma toLowerChar_sameLetter:
  assumes k: "\<not> isUpperCaseLetter k"
  shows "(toLowerChar a = k) = sameLetter a k"
proof -
  have "(toLowerChar a = k) = ((of_char (toLowerChar a) :: nat) = of_char k)"
    by (simp only: of_char_eq_iff)
  also have "\<dots> = sameLetter a k"
  proof (cases "isUpperCaseLetter a")
    case True
    with k have "a \<noteq> k" by blast
    with True k show ?thesis
      by (auto simp: toLowerChar_code sameLetter_def)
  next
    case False
    have "((of_char a :: nat) = of_char k) = (a = k)" by (simp only: of_char_eq_iff)
    with False k show ?thesis
      by (auto simp: toLowerChar_code sameLetter_def)
  qed
  finally show ?thesis .
qed

lemma toLowerCase_sameLetter:
  assumes "\<forall>k \<in> set kw. \<not> isUpperCaseLetter k"
  shows "(toLowerCase u = kw) = list_all2 sameLetter u kw"
  using assms unfolding toLowerCase_def
proof (induction u arbitrary: kw)
  case Nil
  then show ?case by auto
next
  case (Cons a u)
  then show ?case
    by (cases kw) (auto simp: toLowerChar_sameLetter)
qed

lemma includes_lower_iff:
  assumes "\<forall>k \<in> set kw. \<not> isUpperCaseLetter k"
  shows "includesStr (toLowerCase text) kw = containsIgnoringCase text kw"
proof -
  have "includesStr (toLowerCase text) kw = (\<exists>u. sublist u text \<and> toLowerCase u = kw)"
    by (simp add: includesStr_sublist toLowerCase_def sublist_map_iff)
  then show ?thesis
    by (simp add: containsIgnoringCase_def toLowerCase_sameLetter [OF assms])
qed

lemma keywords_lower:
  "\<forall>k \<in> set ''cpr''. \<not> isUpperCaseLetter k"
  "\<forall>k \<in> set ''chest compression''. \<not> isUpperCaseLetter k"
  "\<forall>k \<in> set ''resuscitation''. \<not> isUpperCaseLetter k"
  "\<forall>k \<in> set ''start cpr''. \<not> isUpperCaseLetter k"
  by (simp_all add: isUpperCaseLetter_def)

lemma isCPRAction_iff: "isCPRAction text = containsKeywordIgnoringCase text"
  by (simp add: isCPRAction_def containsKeywordIgnoringCase_def cprKeywords_def Let_def
      includes_lower_iff keywords_lower)

lemma start_cpr_contains:
  assumes "containsIgnoringCase text ''start cpr''"
  shows "containsKeywordIgnoringCase text"
proof -
  from assms have "includesStr (toLowerCase text) ''start cpr''"
    by (simp add: includes_lower_iff keywords_lower)
  then have "sublist (''start '' @ ''cpr'') (toLowerCase text)"
    by (simp add: includesStr_sublist)
  moreover have "sublist ''cpr'' (''start '' @ ''cpr'')" by (rule sublist_append_leftI)
  ultimately have "sublist ''cpr'' (toLowerCase text)"
    by (rule sublist_order.order_trans [rotated])
  then have "includesStr (toLowerCase text) ''cpr''" by (simp add: includesStr_sublist)
  then show ?thesis
    by (simp add: isCPRAction_iff [symmetric] isCPRAction_def Let_def)
qed

lemma dispatchCall_cpr:
  assumes n: "fc_name fc = Some ''updateTriageStatus''"
  shows "isCPRMode (stateAfter (dispatchCall ts fc (s, rs))) = (isCPRMode s \<or> actionHasKeyword fc)"
proof (cases "fc_args fc")
  case None
  then show ?thesis using n
    by (simp add: dispatchCall_def stateAfter_def actionHasKeyword_def Let_def)
next
  case (Some a)
  then show ?thesis using n
    by (cases "arg a ''immediateAction''")
       (simp_all add: dispatchCall_def stateAfter_def actionHasKeyword_def Let_def
          isCPRAction_iff)
qed

lemma dispatchCall_cpr_mono:
  "isCPRMode s \<Longrightarrow> isCPRMode (stateAfter (dispatchCall ts fc (s, rs)))"
  using dispatchCall_cpr [of fc ts s rs] dispatchCall_skip [of fc ts s rs]
  by (cases "fc_name fc = Some ''updateTriageStatus''") (simp_all add: stateAfter_def)

lemma functionCallsLoop_cpr_mono:
  "isCPRMode s \<Longrightarrow> isCPRMode (stateAfter (functionCallsLoop ts fcs (s, rs)))"
proof (induction fcs arbitrary: s rs)
  case Nil
  then show ?case by (simp add: stateAfter_def)
next
  case (Cons fc fcs)
  show ?case
  proof (cases "dispatchCall ts fc (s, rs)")
    case (Inl e)
    with dispatchCall_cpr_mono [OF Cons.prems, of ts fc rs] show ?thesis
      by (simp add: stateAfter_def)
  next
    case (Inr p)
    obtain s1 rs1 where p: "p = (s1, rs1)" by (cases p) auto
    from dispatchCall_cpr_mono [OF Cons.prems, of ts fc rs] Inr p
    have "isCPRMode s1" by (simp add: stateAfter_def)
    from Cons.IH [OF this, of rs1] Inr p show ?thesis by simp
  qed
qed

lemma functionCallsLoop_cpr:
  assumes "\<forall>fc \<in> set (matched fcs). hasActionText fc"
  shows "isCPRMode (stateAfter (functionCallsLoop ts fcs (s, rs)))
           = (isCPRMode s \<or> (\<exists>fc \<in> set (matched fcs). actionHasKeyword fc))"
  using assms
proof (induction fcs arbitrary: s rs)
  case Nil
  then show ?case by (simp add: stateAfter_def matched_def)
next
  case (Cons fc fcs)
  show ?case
  proof (cases "fc_name fc = Some ''updateTriageStatus''")
    case True
    with Cons.prems have "hasActionText fc" by (simp add: matched_def)
    from dispatchCall_ok [OF True this, of ts s rs]
    obtain s1 where 1: "dispatchCall ts fc (s, rs) = Inr (s1, rs @ [responseOf fc])" by blast
    with dispatchCall_cpr [OF True, of ts s rs]
    have 2: "isCPRMode s1 = (isCPRMode s \<or> actionHasKeyword fc)" by (simp add: stateAfter_def)
    from Cons.prems have "\<forall>fc \<in> set (matched fcs). hasActionText fc"
      by (simp add: matched_def)
    from Cons.IH [OF this, of s1 "rs @ [responseOf fc]"] 1 2 True
    show ?thesis by (auto simp: matched_def)
  next
    case False
    from Cons.prems False have "\<forall>fc \<in> set (matched fcs). hasActionText fc"
      by (simp add: matched_def)
    from Cons.IH [OF this, of s rs] dispatchCall_skip [OF False, of ts s rs] False
    show ?thesis by (simp add: matched_def)
  qed
qed

lemma tail_cpr:
  "isCPRMode (handleServerMessage_tail ts m s)
     = (case toolCall m of
          Some (Some fcs) \<Rightarrow> isCPRMode (stateAfter (functionCallsLoop ts fcs (s, [])))
        | _ \<Rightarrow> isCPRMode s)"
proof -
  have t: "\<And>x. isCPRMode (transcriptionPhase m x) = isCPRMode x"
    by (simp add: transcriptionPhase_def Let_def split: option.splits)
  show ?thesis
    by (auto simp: handleServerMessage_tail_def toolCallPhase_def catchMessageError_def
        stateAfter_def t split: option.splits sum.splits)
qed

text \<open>
  C5, as amended. For every \<open>updateTriageStatus\<close> invocation that the dispatch loop
  reaches, the CPR mode is raised after its dispatch exactly when it was raised before
  or \<open>immediateAction\<close> is a string that contains, ignoring letter case, one of the
  keywords \<open>cpr\<close>, \<open>chest compression\<close>, \<open>resuscitation\<close>. Hence, for a message whose
  audio, if any, decodes and in whose batch every invocation of the tool carries a
  string \<open>immediateAction\<close>, the CPR mode after the message is raised exactly when it
  was raised before or some invocation of the batch carries a keyword; and an
  invocation that carries a keyword raises it whenever the invocations before it in
  the batch are in order, whatever comes after it. A text that contains
  \<open>start cpr\<close> in any letter case contains a keyword. (An invocation behind a malformed
  one, or in a message whose audio fails to decode, is never reached.)
\<close>

theorem cpr_alert_iff_keyword:
  "(fc_name fc = Some ''updateTriageStatus'' \<longrightarrow>
      isCPRMode (stateAfter (dispatchCall ts fc (s, rs)))
        = (isCPRMode s \<or> (\<exists>a text. fc_args fc = Some a \<and> arg a ''immediateAction'' = JStr text
                              \<and> containsKeywordIgnoringCase text)))
   \<and> (toolCall m = Some (Some fcs) \<and> (\<forall>p \<in> set (matched fcs). hasActionText p)
        \<and> (\<forall>a. audioDataOf m = Some a \<longrightarrow> decode a \<noteq> None) \<longrightarrow>
        isCPRMode (handleServerMessage add decode t ts m s)
          = (isCPRMode s \<or> (\<exists>p \<in> set (matched fcs). actionHasKeyword p)))
   \<and> (toolCall m = Some (Some (pre @ fc # post)) \<and> (\<forall>p \<in> set (matched pre). hasActionText p)
        \<and> (\<forall>a. audioDataOf m = Some a \<longrightarrow> decode a \<noteq> None)
        \<and> fc_name fc = Some ''updateTriageStatus'' \<and> actionHasKeyword fc \<longrightarrow>
        isCPRMode (handleServerMessage add decode t ts m s))
   \<and> (containsIgnoringCase text ''start cpr'' \<longrightarrow> containsKeywordIgnoringCase text)"
proof (intro conjI impI)
  assume n: "fc_name fc = Some ''updateTriageStatus''"
  from dispatchCall_cpr [OF n, of ts s rs]
  show "isCPRMode (stateAfter (dispatchCall ts fc (s, rs)))
        = (isCPRMode s \<or> (\<exists>a text. fc_args fc = Some a \<and> arg a ''immediateAction'' = JStr text
                              \<and> containsKeywordIgnoringCase text))"
    by (simp add: actionHasKeyword_def)
next
  assume h: "toolCall m = Some (Some fcs) \<and> (\<forall>p \<in> set (matched fcs). hasActionText p)
        \<and> (\<forall>a. audioDataOf m = Some a \<longrightarrow> decode a \<noteq> None)"
  then have tc: "toolCall m = Some (Some fcs)"
    and wf: "\<forall>p \<in> set (matched fcs). hasActionText p"
    and dec: "\<forall>a. audioDataOf m = Some a \<longrightarrow> decode a \<noteq> None" by simp_all
  from handle_as_tail [OF dec, of add t ts s]
  obtain s0 where h0: "handleServerMessage add decode t ts m s = handleServerMessage_tail ts m s0"
    and c0: "isCPRMode s0 = isCPRMode s" by blast
  from tail_cpr [of ts m s0] tc functionCallsLoop_cpr [OF wf, of ts s0 "[]"] h0 c0
  show "isCPRMode (handleServerMessage add decode t ts m s)
          = (isCPRMode s \<or> (\<exists>p \<in> set (matched fcs). actionHasKeyword p))"
    by simp
next
  assume h: "toolCall m = Some (Some (pre @ fc # post))
        \<and> (\<forall>p \<in> set (matched pre). hasActionText p)
        \<and> (\<forall>a. audioDataOf m = Some a \<longrightarrow> decode a \<noteq> None)
        \<and> fc_name fc = Some ''updateTriageStatus'' \<and> actionHasKeyword fc"
  then have tc: "toolCall m = Some (Some (pre @ fc # post))"
    and wf: "\<forall>p \<in> set (matched pre). hasActionText p"
    and dec: "\<forall>a. audioDataOf m = Some a \<longrightarrow> decode a \<noteq> None"
    and n: "fc_name fc = Some ''updateTriageStatus''" and kw: "actionHasKeyword fc"
    by simp_all
  from handle_as_tail [OF dec, of add t ts s]
  obtain s0 where h0: "handleServerMessage add decode t ts m s = handleServerMessage_tail ts m s0"
    by blast
  from loop_ok [OF wf, of ts s0 "[]"]
  obtain s1 where 1: "functionCallsLoop ts pre (s0, []) = Inr (s1, map responseOf (matched pre))"
    by auto
  from kw have "hasActionText fc"
    by (auto simp: actionHasKeyword_def hasActionText_def)
  from dispatchCall_ok [OF n this, of ts s1 "map responseOf (matched pre)"]
  obtain s2 where 2: "dispatchCall ts fc (s1, map responseOf (matched pre))
      = Inr (s2, map responseOf (matched pre) @ [responseOf fc])" by blast
  from dispatchCall_cpr [OF n, of ts s1 "map responseOf (matched pre)"] 2 kw
  have "isCPRMode s2" by (simp add: stateAfter_def)
  from functionCallsLoop_cpr_mono [OF this, of ts post "map responseOf (matched pre) @ [responseOf fc]"]
  have "isCPRMode (stateAfter (functionCallsLoop ts (pre @ fc # post) (s0, [])))"
    using 1 2 by (simp add: functionCallsLoop_append)
  with tail_cpr [of ts m s0] tc h0
  show "isCPRMode (handleServerMessage add decode t ts m s)" by simp
next
  assume "containsIgnoringCase text ''start cpr''"
  then show "containsKeywordIgnoringCase text" by (rule start_cpr_contains)
qed

theorem cpr_alert_iff_keyword_witness:
  "isCPRMode (handleServerMessage (+) (\<lambda>a. None) 0 0
       (toolMessage [callWith ''c1'' [(''immediateAction'', JStr ''Rest'')],
                     callWith ''c2'' [(''immediateAction'', JStr ''Start CPR now'')]])
       openSession)
   \<and> \<not> isCPRMode (handleServerMessage (+) (\<lambda>a. None) 0 0
       (toolMessage [callWith ''c1'' [(''immediateAction'', JStr ''Rest'')]]) openSession)"
proof -
  let ?a = "callWith ''c2'' [(''immediateAction'', JStr ''Start CPR now'')]"
  let ?b = "callWith ''c1'' [(''immediateAction'', JStr ''Rest'')]"
  have m: "matched [?b, ?a] = [?b, ?a]" "matched [?b] = [?b]"
    by (simp_all add: matched_def callWith_def)
  have tc: "toolCall (toolMessage [?b, ?a]) = Some (Some [?b, ?a])"
    "toolCall (toolMessage [?b]) = Some (Some [?b])"
    by (simp_all add: toolMessage_def)
  have wf: "\<forall>p \<in> set (matched [?b, ?a]). hasActionText p"
    "\<forall>p \<in> set (matched [?b]). hasActionText p"
    unfolding m by (simp_all add: hasActionText_def callWith_def arg_def)
  have dec: "\<forall>a. audioDataOf (toolMessage [?b, ?a]) = Some a \<longrightarrow> (\<lambda>a. None :: real option) a \<noteq> None"
    "\<forall>a. audioDataOf (toolMessage [?b]) = Some a \<longrightarrow> (\<lambda>a. None :: real option) a \<noteq> None"
    by (simp_all add: audioDataOf_def toolMessage_def)
  have ka: "actionHasKeyword ?a" and kb: "\<not> actionHasKeyword ?b"
    using isCPRAction_examples
    by (simp_all add: actionHasKeyword_def callWith_def arg_def isCPRAction_iff)
  have c: "\<not> isCPRMode openSession" by (simp add: openSession_def initial_def)
  note t1 = cpr_alert_iff_keyword [of ?a 0 openSession "[]" "toolMessage [?b, ?a]" "[?b, ?a]"
      "\<lambda>a. None" "(+)" 0, THEN conjunct2, THEN conjunct1]
  note t2 = cpr_alert_iff_keyword [of ?a 0 openSession "[]" "toolMessage [?b]" "[?b]"
      "\<lambda>a. None" "(+)" 0, THEN conjunct2, THEN conjunct1]
  from t1 tc(1) wf(1) dec(1) ka
  have 1: "isCPRMode (handleServerMessage (+) (\<lambda>a. None) 0 0 (toolMessage [?b, ?a]) openSession)"
    unfolding m by simp
  from t2 tc(2) wf(2) dec(2) kb c
  have 2: "\<not> isCPRMode (handleServerMessage (+) (\<lambda>a. None) 0 0 (toolMessage [?b]) openSession)"
    unfolding m by simp
  from 1 2 show ?thesis by simp
qed

text \<open>
  C5 as stated fails: an invocation whose \<open>immediateAction\<close> is \<open>Start CPR now\<close> raises
  no alert when the invocation before it in the batch has no \<open>immediateAction\<close>, nor
  when the audio of its message fails to decode; in both cases the handler has left
  its \<open>try\<close> block before the invocation is dispatched.
\<close>

theorem unreached_invocation_counterexample:
  "isCPRAction ''Start CPR now''
   \<and> \<not> isCPRMode (handleServerMessage (+) (\<lambda>a. None) 0 0
       (toolMessage [callWith ''c1'' [],
                     callWith ''c2'' [(''immediateAction'', JStr ''Start CPR now'')]])
       openSession)
   \<and> \<not> isCPRMode (handleServerMessage (+) (\<lambda>a. None) 0 0
       \<lparr> inlineData = Some ''pcm'',
         toolCall = Some (Some [callWith ''c2'' [(''immediateAction'', JStr ''Start CPR now'')]]),
         inputTranscription = None, outputTranscription = None \<rparr>
       openSession)"
  by (simp add: example_defs handler_defs isCPRAction_examples)

section \<open>Teardown\<close>

lemma stopAudioProcessing_eq:
  "stopAudioProcessing s =
     s\<lparr> connectedNodes := connectedNodes s - set_option (inputSourceRef s)
                             - set_option (processorRef s),
        inputSourceRef := None, processorRef := None \<rparr>"
  by (cases "inputSourceRef s"; cases "processorRef s")
     (auto simp: stopAudioProcessing_def Let_def intro!: session_state.equality)

lemma closeAudioContext_eq:
  "closeAudioContext s =
     s\<lparr> openContexts := openContexts s - set_option (audioContextRef s),
        audioContextRef := None \<rparr>"
  by (cases "audioContextRef s")
     (auto simp: closeAudioContext_def intro!: session_state.equality)

lemma stopVideoProcessing_eq:
  "stopVideoProcessing s =
     s\<lparr> timers := timers s - truthyTimer (frameIntervalRef s),
        frameIntervalRef := (if frameIntervalRef s = Some 0 then Some 0 else None),
        liveStreams := liveStreams s - streamOf (videoRef s),
        videoRef := clearedVideo (videoRef s) \<rparr>"
proof (cases "videoRef s")
  case None
  then show ?thesis
    by (cases "frameIntervalRef s")
       (auto simp: stopVideoProcessing_def Let_def truthyTimer_def streamOf_def clearedVideo_def
          intro!: session_state.equality)
next
  case (Some v)
  then show ?thesis
    by (cases "frameIntervalRef s"; cases "srcObject v")
       (auto simp: stopVideoProcessing_def Let_def truthyTimer_def streamOf_def clearedVideo_def
          intro!: session_state.equality)
qed

lemma closeGenAISession_eq:
  "closeGenAISession s =
     s\<lparr> openSessions := openSessions s - set_option (sessionRef s), sessionRef := None \<rparr>"
  by (cases "sessionRef s")
     (auto simp: closeGenAISession_def intro!: session_state.equality)

lemma stopSession_eq:
  "stopSession s =
     s\<lparr> activeRef := False,
        connectedNodes := connectedNodes s - set_option (inputSourceRef s)
                             - set_option (processorRef s),
        inputSourceRef := None, processorRef := None,
        openContexts := openContexts s - set_option (audioContextRef s),
        audioContextRef := None,
        timers := timers s - truthyTimer (frameIntervalRef s),
        frameIntervalRef := (if frameIntervalRef s = Some 0 then Some 0 else None),
        liveStreams := liveStreams s - streamOf (videoRef s),
        videoRef := clearedVideo (videoRef s),
        openSessions := openSessions s - set_option (sessionRef s), sessionRef := None,
        isConnected := False, isStreaming := False, audioAnalyser := None,
        triageStatus := None, isCPRMode := False \<rparr>"
  by (simp add: stopSession_def Let_def stopAudioProcessing_eq closeAudioContext_eq
      stopVideoProcessing_eq closeGenAISession_eq)

lemma clearedVideo_idem: "clearedVideo (clearedVideo v) = clearedVideo v"
  "streamOf (clearedVideo v) = {}"
  by (cases v; simp add: clearedVideo_def streamOf_def)+

lemma truthyTimer_after:
  "truthyTimer (if h = Some 0 then Some 0 else None) = {}"
  by (simp add: truthyTimer_def)

lemma stopSession_idem: "stopSession (stopSession s) = stopSession s"
  by (simp add: stopSession_eq clearedVideo_idem truthyTimer_after)

lemma stopSession_resourceFree:
  assumes "openContexts s \<subseteq> set_option (audioContextRef s)"
    and "connectedNodes s \<subseteq> set_option (inputSourceRef s) \<union> set_option (processorRef s)"
    and "liveStreams s \<subseteq> streamOf (videoRef s)"
    and "timers s \<subseteq> truthyTimer (frameIntervalRef s)"
    and "openSessions s \<subseteq> set_option (sessionRef s)"
  shows "resourceFree (stopSession s)"
  using assms by (auto simp: resourceFree_def stopSession_eq)

lemmas stop_defs = stopSession_eq clearedVideo_def streamOf_def truthyTimer_def

lemmas start_defs =
  startSession_def startSession_afterLocation_def startSession_afterUserMedia_def
  startSession_afterResume_def sessionPromise_then_def mounted_def Let_def

lemma stop_during_user_media_is_clean:
  "resourceFree stopDuringUserMedia \<and> audioContextRef stopDuringUserMedia = None"
  by (simp add: stopDuringUserMedia_def resourceFree_def start_defs stop_defs initial_def)

text \<open>
  C2. The claim: calling \<open>stop()\<close> twice, or before the asynchronous setup of
  \<open>start()\<close> has completed, leaves no acquired device, audio context or timer. Two
  stops in a row do (\<open>stopSession_idem\<close>, \<open>stopSession_resourceFree\<close>), and so does a
  stop while \<open>start()\<close> waits for the location or for the devices, where the
  continuation checks the active flag. After \<open>audioCtx.resume()\<close> the flag is not
  checked: when \<open>stop()\<close> runs during that wait, the continuation stores the context that
  \<open>stop()\<close> could not see and builds the capture graph, so the run ends inactive with
  audio context 1 open and two nodes connected; only a further \<open>stop()\<close> releases them.
\<close>

theorem stop_during_resume_leaks_context:
  "\<not> activeRef stopDuringResume
   \<and> openContexts stopDuringResume = {1}
   \<and> audioContextRef stopDuringResume = Some 1
   \<and> connectedNodes stopDuringResume = {1, 2}
   \<and> \<not> resourceFree stopDuringResume
   \<and> resourceFree (stopSession stopDuringResume)"
  by (simp add: stopDuringResume_def resourceFree_def start_defs stop_defs initial_def)

section \<open>Continuations that outlive a stop\<close>

lemma guarded_continuations:
  assumes "\<not> activeRef s"
  shows "onmessage add decode t ts m s = s"
    and "onaudioprocess_then sess mt d s = s"
    and "captureAndSendFrame q s = s"
    and "sent (toBlobCallback blob s) = sent s \<and> pendingBase64 (toBlobCallback blob s) = pendingBase64 s"
    and "isConnected (onopen s) = isConnected s \<and> isStreaming (onopen s) = isStreaming s"
    and "sessionRef (sessionPromise_then sess s) = sessionRef s
         \<and> openSessions (sessionPromise_then sess s) = openSessions s - {sess}"
    and "startSession_afterLocation loc s = s"
    and "liveStreams (startSession_afterUserMedia st c s) = liveStreams s - {st}"
  using assms
  by (auto simp: onmessage_def onaudioprocess_then_def captureAndSendFrame_def toBlobCallback_def
      onopen_def sessionPromise_then_def startSession_afterLocation_def
      startSession_afterUserMedia_def Let_def split: option.splits)

text \<open>
  C3. The claim: after \<open>stop()\<close> has flipped the active flag, no continuation scheduled
  before it sends data, mutates session state or schedules playback. The send
  callbacks, \<open>onopen\<close>, the entry of \<open>onmessage\<close> and the frame callback check the flag
  (\<open>guarded_continuations\<close>). The message handler does not check it again after
  \<open>await decodeAudioData(...)\<close>: a message accepted while the session was active, whose
  decode completes after \<open>stop()\<close>, schedules its segment, advances the cursor, publishes
  a triage status, raises the CPR mode and replaces the transcript in the stopped
  session. Only its tool response is held back.
\<close>

theorem stale_message_continuation_mutates_state:
  "activeRef openSession
   \<and> \<not> activeRef (stopSession openSession)
   \<and> triageStatus (stopSession openSession) = None
   \<and> \<not> activeRef (handleServerMessage_resume (+) 1 0 staleMessage (Some 0.5) (stopSession openSession))
   \<and> triageStatus (handleServerMessage_resume (+) 1 0 staleMessage (Some 0.5) (stopSession openSession))
        \<noteq> None
   \<and> isCPRMode (handleServerMessage_resume (+) 1 0 staleMessage (Some 0.5) (stopSession openSession))
   \<and> playback (handleServerMessage_resume (+) 1 0 staleMessage (Some 0.5) (stopSession openSession))
        = [(1, 0.5)]
   \<and> nextStartTimeRef
        (handleServerMessage_resume (+) 1 0 staleMessage (Some 0.5) (stopSession openSession)) = 1.5
   \<and> transcription
        (handleServerMessage_resume (+) 1 0 staleMessage (Some 0.5) (stopSession openSession))
        = ''LifeLine: Begin compressions''
   \<and> sent (handleServerMessage_resume (+) 1 0 staleMessage (Some 0.5) (stopSession openSession)) = []"
  by (simp add: staleMessage_def example_defs handler_defs stop_defs isCPRAction_examples)

section \<open>What a stop resets and what it keeps\<close>

text \<open>
  C10. \<open>stopSession\<close> clears the connection and streaming flags, the triage status and
  the CPR mode, empties the refs to the audio graph, the context and the remote session
  and releases what they referred to, together with the stream of the video element and
  the frame timer. It leaves \<open>nextStartTime\<close>, the transcript and the error message as
  they were, and no piece of \<open>startSession\<close> writes the cursor: a start after a stop runs
  with the cursor of the previous session, not with 0.
\<close>

theorem stop_keeps_cursor:
  "\<not> isConnected (stopSession s) \<and> \<not> isStreaming (stopSession s)
   \<and> triageStatus (stopSession s) = None \<and> \<not> isCPRMode (stopSession s)
   \<and> audioContextRef (stopSession s) = None \<and> inputSourceRef (stopSession s) = None
   \<and> processorRef (stopSession s) = None \<and> sessionRef (stopSession s) = None
   \<and> openContexts (stopSession s) = openContexts s - set_option (audioContextRef s)
   \<and> connectedNodes (stopSession s)
        = connectedNodes s - set_option (inputSourceRef s) - set_option (processorRef s)
   \<and> liveStreams (stopSession s) = liveStreams s - streamOf (videoRef s)
   \<and> timers (stopSession s) = timers s - truthyTimer (frameIntervalRef s)
   \<and> openSessions (stopSession s) = openSessions s - set_option (sessionRef s)
   \<and> nextStartTimeRef (stopSession s) = nextStartTimeRef s
   \<and> transcription (stopSession s) = transcription s
   \<and> error (stopSession s) = error s
   \<and> nextStartTimeRef (startSession (stopSession s)) = nextStartTimeRef s
   \<and> nextStartTimeRef
        (startSession_afterResume c an src pr
           (startSession_afterUserMedia st c
              (startSession_afterLocation loc (startSession (stopSession s)))))
        = nextStartTimeRef s"
  by (simp add: stopSession_eq startSession_def startSession_afterLocation_def
      startSession_afterUserMedia_def startSession_afterResume_def Let_def
      split: option.splits)

theorem stop_keeps_cursor_witness:
  "nextStartTimeRef (scheduleChunk (+) 1 0.5 openSession) = 1.5
   \<and> nextStartTimeRef (startSession (stopSession (scheduleChunk (+) 1 0.5 openSession))) = 1.5
   \<and> nextStartTimeRef (initial None None) = 0"
  using stop_keeps_cursor [of "scheduleChunk (+) 1 0.5 openSession"]
  by (simp add: scheduleChunk_def openSession_def initial_def Let_def)

section \<open>The frame sampler\<close>

text \<open>
  C7, as amended. A timer tick changes nothing when the session is not active or has
  no remote handle, when the video or the canvas element is missing, when the frame has
  no dimensions or the canvas no 2D context. Otherwise it queues exactly one encode, of
  the scaled size and the quality of the tier, behind those already pending, whether or
  not an earlier encode or send is still under way, and sends nothing itself; the
  guards still hold afterwards, so the next tick queues another. A finished encode
  leaves the pending encodes; with no blob or an inactive session the frame is dropped
  and nothing else changes; with a blob in an active session it goes on to the base64
  conversion, after which it is sent as one \<open>image/jpeg\<close> message on the remote handle of
  that moment, or dropped when there is none. Nothing is kept for later.
\<close>

theorem frame_tick_not_single_flight:
  "(\<not> activeRef s \<or> sessionRef s = None \<or> videoRef s = None \<or> canvasRef s = None
      \<longrightarrow> captureAndSendFrame q s = s)
   \<and> (videoRef s = Some v \<and> (videoWidth v = 0 \<or> videoHeight v = 0)
      \<longrightarrow> captureAndSendFrame q s = s)
   \<and> (canvasRef s = Some c \<and> \<not> hasContext2d c \<longrightarrow> captureAndSendFrame q s = s)
   \<and> (activeRef s \<and> sessionRef s = Some sess \<and> videoRef s = Some v \<and> canvasRef s = Some c
        \<and> hasContext2d c \<and> 0 < videoWidth v \<and> 0 < videoHeight v \<longrightarrow>
        pendingEncodes (captureAndSendFrame q s)
          = pendingEncodes s @
              [\<lparr> jobWidth = nat \<lfloor>real (videoWidth v) * scaleOf q\<rfloor>,
                 jobHeight = nat \<lfloor>real (videoHeight v) * scaleOf q\<rfloor>,
                 jpegQuality = jpegQualityOf q \<rparr>]
        \<and> sent (captureAndSendFrame q s) = sent s
        \<and> pendingBase64 (captureAndSendFrame q s) = pendingBase64 s
        \<and> activeRef (captureAndSendFrame q s) \<and> sessionRef (captureAndSendFrame q s) = Some sess
        \<and> videoRef (captureAndSendFrame q s) = Some v
        \<and> map_option hasContext2d (canvasRef (captureAndSendFrame q s)) = Some True)
   \<and> (blob \<and> activeRef s \<longrightarrow>
        toBlobCallback blob s
          = s\<lparr> pendingEncodes := tl (pendingEncodes s), pendingBase64 := pendingBase64 s + 1 \<rparr>)
   \<and> (\<not> activeRef s \<or> \<not> blob \<longrightarrow>
        toBlobCallback blob s = s\<lparr> pendingEncodes := tl (pendingEncodes s) \<rparr>)
   \<and> (sessionRef s = Some sess \<longrightarrow>
        toBlobCallback_resume b64 s
          = s\<lparr> pendingBase64 := pendingBase64 s - 1,
               sent := sent s @ [(sess, RealtimeInput ''image/jpeg'' b64)] \<rparr>)
   \<and> (sessionRef s = None \<longrightarrow>
        toBlobCallback_resume b64 s = s\<lparr> pendingBase64 := pendingBase64 s - 1 \<rparr>)"
proof -
  have 1: "\<not> activeRef s \<or> sessionRef s = None \<or> videoRef s = None \<or> canvasRef s = None
      \<longrightarrow> captureAndSendFrame q s = s"
    by (auto simp: captureAndSendFrame_def split: option.splits)
  have 2: "videoRef s = Some v \<and> (videoWidth v = 0 \<or> videoHeight v = 0)
      \<longrightarrow> captureAndSendFrame q s = s"
    by (auto simp: captureAndSendFrame_def split: option.splits)
  have 3: "canvasRef s = Some c \<and> \<not> hasContext2d c \<longrightarrow> captureAndSendFrame q s = s"
    by (auto simp: captureAndSendFrame_def split: option.splits)
  have 4: "activeRef s \<and> sessionRef s = Some sess \<and> videoRef s = Some v \<and> canvasRef s = Some c
        \<and> hasContext2d c \<and> 0 < videoWidth v \<and> 0 < videoHeight v \<longrightarrow>
        pendingEncodes (captureAndSendFrame q s)
          = pendingEncodes s @
              [\<lparr> jobWidth = nat \<lfloor>real (videoWidth v) * scaleOf q\<rfloor>,
                 jobHeight = nat \<lfloor>real (videoHeight v) * scaleOf q\<rfloor>,
                 jpegQuality = jpegQualityOf q \<rparr>]
        \<and> sent (captureAndSendFrame q s) = sent s
        \<and> pendingBase64 (captureAndSendFrame q s) = pendingBase64 s
        \<and> activeRef (captureAndSendFrame q s) \<and> sessionRef (captureAndSendFrame q s) = Some sess
        \<and> videoRef (captureAndSendFrame q s) = Some v
        \<and> map_option hasContext2d (canvasRef (captureAndSendFrame q s)) = Some True"
    by (simp add: captureAndSendFrame_def Let_def)
  have 5: "blob \<and> activeRef s \<longrightarrow>
        toBlobCallback blob s
          = s\<lparr> pendingEncodes := tl (pendingEncodes s), pendingBase64 := pendingBase64 s + 1 \<rparr>"
    by (simp add: toBlobCallback_def Let_def)
  have 6: "\<not> activeRef s \<or> \<not> blob \<longrightarrow>
        toBlobCallback blob s = s\<lparr> pendingEncodes := tl (pendingEncodes s) \<rparr>"
    by (auto simp: toBlobCallback_def Let_def)
  have 7: "sessionRef s = Some sess \<longrightarrow>
        toBlobCallback_resume b64 s
          = s\<lparr> pendingBase64 := pendingBase64 s - 1,
               sent := sent s @ [(sess, RealtimeInput ''image/jpeg'' b64)] \<rparr>"
    by (simp add: toBlobCallback_resume_def Let_def)
  have 8: "sessionRef s = None \<longrightarrow>
        toBlobCallback_resume b64 s = s\<lparr> pendingBase64 := pendingBase64 s - 1 \<rparr>"
    by (simp add: toBlobCallback_resume_def Let_def)
  from 1 2 3 4 5 6 7 8 show ?thesis by blast
qed

theorem frame_tick_not_single_flight_witness:
  "pendingEncodes (captureAndSendFrame Medium streamingSession)
     = [\<lparr> jobWidth = 320, jobHeight = 240, jpegQuality = 0.7 \<rparr>]
   \<and> sent (toBlobCallback_resume ''img''
        (toBlobCallback True (captureAndSendFrame Medium streamingSession)))
     = [(1, RealtimeInput ''image/jpeg'' ''img'')]
   \<and> pendingEncodes (toBlobCallback_resume ''img''
        (toBlobCallback True (captureAndSendFrame Medium streamingSession))) = []
   \<and> pendingBase64 (toBlobCallback_resume ''img''
        (toBlobCallback True (captureAndSendFrame Medium streamingSession))) = 0
   \<and> captureAndSendFrame Medium (stopSession streamingSession) = stopSession streamingSession"
proof -
  let ?v = "\<lparr> srcObject = Some 1, videoWidth = 640, videoHeight = 480 \<rparr>"
  let ?c = "\<lparr> hasContext2d = True, width = 300, height = 150 \<rparr>"
  let ?s1 = "captureAndSendFrame Medium streamingSession"
  let ?s2 = "toBlobCallback True ?s1"
  have r: "activeRef streamingSession \<and> sessionRef streamingSession = Some 1
      \<and> videoRef streamingSession = Some ?v \<and> canvasRef streamingSession = Some ?c
      \<and> hasContext2d ?c \<and> 0 < videoWidth ?v \<and> 0 < videoHeight ?v"
    by (simp add: streamingSession_def openSession_def initial_def)
  have n: "\<not> activeRef (stopSession streamingSession)"
    by (simp add: stop_defs)
  have p: "pendingEncodes streamingSession = []" "sent streamingSession = []"
    "pendingBase64 streamingSession = 0"
    by (simp_all add: streamingSession_def openSession_def initial_def)
  have sz: "nat \<lfloor>real (videoWidth ?v) * scaleOf Medium\<rfloor> = 320"
    "nat \<lfloor>real (videoHeight ?v) * scaleOf Medium\<rfloor> = 240" "jpegQualityOf Medium = 0.7"
    by (simp_all add: scaleOf_def jpegQualityOf_def)
  note f = frame_tick_not_single_flight [of streamingSession Medium ?v ?c 1]
  from f [THEN conjunct2, THEN conjunct2, THEN conjunct2, THEN conjunct1] r p
  have 1: "pendingEncodes ?s1 = [\<lparr> jobWidth = 320, jobHeight = 240, jpegQuality = 0.7 \<rparr>]"
    and a1: "activeRef ?s1" and h1: "sessionRef ?s1 = Some 1" and t1: "sent ?s1 = []"
    and b1: "pendingBase64 ?s1 = 0"
    by (simp_all only: sz append_Nil)
  from frame_tick_not_single_flight [of ?s1 Medium ?v ?c 1 True, THEN conjunct2, THEN conjunct2,
      THEN conjunct2, THEN conjunct2, THEN conjunct1] a1
  have 2: "?s2 = ?s1\<lparr> pendingEncodes := tl (pendingEncodes ?s1),
      pendingBase64 := pendingBase64 ?s1 + 1 \<rparr>"
    by simp
  then have h2: "sessionRef ?s2 = Some 1" and t2: "sent ?s2 = []" and b2: "pendingBase64 ?s2 = 1"
    and e2: "pendingEncodes ?s2 = []"
    by (simp_all add: h1 t1 b1 1)
  from frame_tick_not_single_flight [of ?s2 Medium ?v ?c 1 True "''img''", THEN conjunct2,
      THEN conjunct2, THEN conjunct2, THEN conjunct2, THEN conjunct2, THEN conjunct2,
      THEN conjunct1] h2
  have 3: "toBlobCallback_resume ''img'' ?s2
      = ?s2\<lparr> pendingBase64 := pendingBase64 ?s2 - 1,
           sent := sent ?s2 @ [(1, RealtimeInput ''image/jpeg'' ''img'')] \<rparr>"
    by simp
  have 4: "sent (toBlobCallback_resume ''img'' ?s2) = [(1, RealtimeInput ''image/jpeg'' ''img'')]"
    "pendingEncodes (toBlobCallback_resume ''img'' ?s2) = []"
    "pendingBase64 (toBlobCallback_resume ''img'' ?s2) = 0"
    unfolding 3 by (simp_all add: t2 b2 e2)
  from frame_tick_not_single_flight [of "stopSession streamingSession" Medium, THEN conjunct1] n
  have 5: "captureAndSendFrame Medium (stopSession streamingSession) = stopSession streamingSession"
    by blast
  from 1 4 5 show ?thesis by simp
qed

text \<open>
  C7 as stated fails: the sampler has no pending flag. Two ticks in a row of a streaming
  session, with the first encode not yet finished, leave two encodes under way.
\<close>

theorem frame_tick_counterexample:
  "pendingEncodes (captureAndSendFrame Medium streamingSession) \<noteq> []
   \<and> length (pendingEncodes
        (captureAndSendFrame Medium (captureAndSendFrame Medium streamingSession))) = 2"
  by (simp add: captureAndSendFrame_def streamingSession_def openSession_def initial_def Let_def)

section \<open>Resampling\<close>

lemma interpolate_in_range:
  assumes R: "0 < R" and i: "i < (length buffer * AUDIO_INPUT_SAMPLE_RATE) div R"
  shows "(i * R) div AUDIO_INPUT_SAMPLE_RATE < length buffer"
proof -
  from i have "Suc i \<le> (length buffer * AUDIO_INPUT_SAMPLE_RATE) div R" by simp
  with R have "Suc i * R \<le> length buffer * AUDIO_INPUT_SAMPLE_RATE"
    by (simp only: less_eq_div_iff_mult_less_eq)
  with R have "i * R < length buffer * AUDIO_INPUT_SAMPLE_RATE" by simp
  moreover have "0 < AUDIO_INPUT_SAMPLE_RATE" by (simp add: AUDIO_INPUT_SAMPLE_RATE_def)
  ultimately show ?thesis by (simp only: div_less_iff_less_mult)
qed

text \<open>
  C6. For every buffer and every source rate \<open>R > 0\<close>, the resampler returns exactly
  \<open>floor(len * target / R)\<close> samples, \<open>target\<close> being the input rate of the service. As
  a function of the buffer and the rate it is deterministic.
\<close>

theorem resample_length:
  "0 < R \<Longrightarrow>
     length (downsampleTo16k buffer R)
       = nat \<lfloor>real (length buffer) * real AUDIO_INPUT_SAMPLE_RATE / real R\<rfloor>"
proof -
  assume "0 < R"
  have "\<lfloor>real (length buffer) * real AUDIO_INPUT_SAMPLE_RATE / real R\<rfloor>
          = int ((length buffer * AUDIO_INPUT_SAMPLE_RATE) div R)"
    by (metis floor_divide_of_nat_eq of_nat_mult)
  then show ?thesis by (simp add: downsampleTo16k_def)
qed

theorem resample_length_witness:
  "length (downsampleTo16k [0, 1, 2, 3, 4, 5, 6] 48000) = 2"
proof -
  have "nat \<lfloor>real (length [0::real, 1, 2, 3, 4, 5, 6]) * real AUDIO_INPUT_SAMPLE_RATE / real 48000\<rfloor> = 2"
    by (simp add: AUDIO_INPUT_SAMPLE_RATE_def)
  with resample_length [of 48000 "[0, 1, 2, 3, 4, 5, 6]"] show ?thesis by simp
qed

end
